theory Spec2Isabelle
  imports Complex_Main
begin

section \<open>Class Name Table (wcl-class-map.ts)\<close>

text \<open>
  \<^verbatim>\<open>WCL_CLASS_ID_TO_NAME\<close> is an object literal with the keys 1 to 13. The lookup
  \<^verbatim>\<open>WCL_CLASS_ID_TO_NAME[classID]\<close> is \<^verbatim>\<open>undefined\<close> for every other key, which is
  \<open>None\<close> here. The class index is an integer (\<^verbatim>\<open>classID: Int\<close> in the upstream schema).
\<close>

definition WCL_CLASS_ID_TO_NAME :: "int \<Rightarrow> string option" where
  "WCL_CLASS_ID_TO_NAME classID =
     (if classID = 1 then Some ''Death Knight''
      else if classID = 2 then Some ''Druid''
      else if classID = 3 then Some ''Hunter''
      else if classID = 4 then Some ''Mage''
      else if classID = 5 then Some ''Monk''
      else if classID = 6 then Some ''Paladin''
      else if classID = 7 then Some ''Priest''
      else if classID = 8 then Some ''Rogue''
      else if classID = 9 then Some ''Shaman''
      else if classID = 10 then Some ''Warlock''
      else if classID = 11 then Some ''Warrior''
      else if classID = 12 then Some ''Demon Hunter''
      else if classID = 13 then Some ''Evoker''
      else None)"

text \<open>\<^verbatim>\<open>return WCL_CLASS_ID_TO_NAME[classID] || 'Unknown'\<close>: every name of the table is a
  non-empty string, so \<^verbatim>\<open>||\<close> falls through to \<^verbatim>\<open>'Unknown'\<close> only on \<^verbatim>\<open>undefined\<close>;
  the test on the empty string keeps the operator as it is written.\<close>

definition getWCLClassName :: "int \<Rightarrow> string" where
  "getWCLClassName classID =
     (case WCL_CLASS_ID_TO_NAME classID of
        None \<Rightarrow> ''Unknown''
      | Some n \<Rightarrow> if n = [] then ''Unknown'' else n)"

section \<open>JavaScript string operations\<close>

text \<open>
  A string is the list of its code units, here the characters below 256. Case mapping
  is the one of the ASCII letters: the parser applies \<^verbatim>\<open>toUpperCase\<close> to strings it has
  already checked to be ASCII letters, and a character above 127 fails each check of the
  parser before and after \<^verbatim>\<open>toLowerCase\<close> alike. \<^verbatim>\<open>trim\<close> removes the white space and line
  terminators of the language that are below 256.
\<close>

definition upper_letters :: string where
  "upper_letters = ''ABCDEFGHIJKLMNOPQRSTUVWXYZ''"

definition lower_letters :: string where
  "lower_letters = ''abcdefghijklmnopqrstuvwxyz''"

definition digits :: string where
  "digits = ''0123456789''"

definition lowerChar :: "char \<Rightarrow> char" where
  "lowerChar c = (case map_of (zip upper_letters lower_letters) c of Some d \<Rightarrow> d | None \<Rightarrow> c)"

definition upperChar :: "char \<Rightarrow> char" where
  "upperChar c = (case map_of (zip lower_letters upper_letters) c of Some d \<Rightarrow> d | None \<Rightarrow> c)"

definition toLowerCase :: "string \<Rightarrow> string" where
  "toLowerCase s = map lowerChar s"

definition toUpperCase :: "string \<Rightarrow> string" where
  "toUpperCase s = map upperChar s"

definition white_space :: string where
  "white_space = [CHR '' '', CHR 0x09, CHR 0x0A, CHR 0x0B, CHR 0x0C, CHR 0x0D, CHR 0xA0]"

definition trim :: "string \<Rightarrow> string" where
  "trim s = rev (dropWhile (\<lambda>c. c \<in> set white_space) (rev (dropWhile (\<lambda>c. c \<in> set white_space) s)))"

definition startsWith :: "string \<Rightarrow> string \<Rightarrow> bool" where
  "startsWith s p = (take (length p) s = p)"

text \<open>\<^verbatim>\<open>s.includes(sub)\<close>: \<^verbatim>\<open>sub\<close> occurs in \<^verbatim>\<open>s\<close> at some position.\<close>

fun str_includes :: "string \<Rightarrow> string \<Rightarrow> bool" where
  "str_includes [] sub = (sub = [])"
| "str_includes (c # cs) sub = (startsWith (c # cs) sub \<or> str_includes cs sub)"

text \<open>\<^verbatim>\<open>s.split(d)\<close> for a one-character separator: the empty string splits into one
  empty part.\<close>

fun split_on :: "char \<Rightarrow> string \<Rightarrow> string list" where
  "split_on d [] = [[]]"
| "split_on d (c # cs) =
     (if c = d then [] # split_on d cs
      else (case split_on d cs of [] \<Rightarrow> [[c]] | w # ws \<Rightarrow> (c # w) # ws))"

text \<open>The three regular expressions of the parser: \<^verbatim>\<open>/^[a-z0-9-]+$/\<close>, \<^verbatim>\<open>/^[a-zA-Z]+$/\<close>
  and \<^verbatim>\<open>/^\d+$/\<close>.\<close>

definition re_slug :: "string \<Rightarrow> bool" where
  "re_slug s = (s \<noteq> [] \<and> list_all (\<lambda>c. c \<in> set lower_letters \<or> c \<in> set digits \<or> c = CHR ''-'') s)"

definition re_letters :: "string \<Rightarrow> bool" where
  "re_letters s = (s \<noteq> [] \<and> list_all (\<lambda>c. c \<in> set lower_letters \<or> c \<in> set upper_letters) s)"

definition re_digits :: "string \<Rightarrow> bool" where
  "re_digits s = (s \<noteq> [] \<and> list_all (\<lambda>c. c \<in> set digits) s)"

section \<open>Identity parser (warcraft-logs-parser.ts)\<close>

text \<open>
  Every \<^verbatim>\<open>throw new Error(...)\<close> of the parser is one constructor of \<open>parse_error\<close> or
  \<open>field_error\<close>; the errors of the three normalisers are re-thrown by the parser inside
  \<open>UrlValidationFailed\<close>. The argument of the parser is any JavaScript value:
  \<open>NotAString\<close> stands for every value whose \<^verbatim>\<open>typeof\<close> is not \<^verbatim>\<open>'string'\<close>.

  \<^verbatim>\<open>new URL(s)\<close> is the platform's parser, not code of the repository: the parser takes
  it as the parameter \<open>newURL\<close>, \<open>None\<close> when it throws, and reads the fields
  \<^verbatim>\<open>hostname\<close> and \<^verbatim>\<open>pathname\<close> of its result.
\<close>

datatype field_error = InvalidRegion | RealmEmpty | InvalidRealmSlug | NameEmpty | InvalidNameLength | InvalidName

datatype parse_error =
    UrlRequired | UrlEmpty | InvalidUrlFormat | InvalidDomain | InvalidUrlStructure
  | InvalidUrlPath | CharacterIdMissing | InvalidCharacterId | UrlValidationFailed field_error

text \<open>The two forms of a parsed reference: \<open>SlugUrl region realm characterName originalUrl\<close>
  and \<open>IdUrl characterId originalUrl\<close>.\<close>

datatype ParsedWarcraftLogsUrl =
    SlugUrl string string string string
  | IdUrl string string

record URL =
  hostname :: string
  pathname :: string

datatype js_value = Str string | NotAString

definition VALID_REGIONS :: "string list" where
  "VALID_REGIONS = [''us'', ''eu'', ''kr'', ''tw'', ''cn'']"

definition normalizeRegion :: "string \<Rightarrow> field_error + string" where
  "normalizeRegion region =
     (let normalized = toLowerCase region
      in if normalized \<notin> set VALID_REGIONS then Inl InvalidRegion
         else Inr (toUpperCase normalized))"

definition normalizeRealmSlug :: "string \<Rightarrow> field_error + string" where
  "normalizeRealmSlug realm =
     (if realm = [] \<or> trim realm = [] then Inl RealmEmpty
      else let normalized = trim (toLowerCase realm)
           in if \<not> re_slug normalized then Inl InvalidRealmSlug
              else Inr normalized)"

definition normalizeCharacterName :: "string \<Rightarrow> field_error + string" where
  "normalizeCharacterName name =
     (if name = [] \<or> trim name = [] then Inl NameEmpty
      else let normalized = trim name
           in if length normalized < 2 \<or> length normalized > 12 then Inl InvalidNameLength
              else if \<not> re_letters normalized then Inl InvalidName
              else Inr (toUpperCase (take 1 normalized) @ toLowerCase (drop 1 normalized)))"

text \<open>\<^verbatim>\<open>pathname.split('/').filter(part => part !== '')\<close>\<close>

definition pathParts :: "string \<Rightarrow> string list" where
  "pathParts p = filter (\<lambda>part. part \<noteq> []) (split_on CHR ''/'' p)"

text \<open>The \<^verbatim>\<open>try\<close> block of the full format: region, realm and name are normalised in this
  order and the first error is re-thrown.\<close>

definition validateSlug :: "string \<Rightarrow> string \<Rightarrow> string \<Rightarrow> string \<Rightarrow> parse_error + ParsedWarcraftLogsUrl" where
  "validateSlug region realm characterName trimmedUrl =
     (case normalizeRegion region of
        Inl e \<Rightarrow> Inl (UrlValidationFailed e)
      | Inr normalizedRegion \<Rightarrow>
         (case normalizeRealmSlug realm of
            Inl e \<Rightarrow> Inl (UrlValidationFailed e)
          | Inr normalizedRealm \<Rightarrow>
             (case normalizeCharacterName characterName of
                Inl e \<Rightarrow> Inl (UrlValidationFailed e)
              | Inr normalizedCharacterName \<Rightarrow>
                  Inr (SlugUrl normalizedRegion normalizedRealm normalizedCharacterName trimmedUrl))))"

text \<open>The checks on \<^verbatim>\<open>pathParts\<close>. The parts are non-empty, so a missing third part is
  the only way for \<^verbatim>\<open>!thirdPart\<close> to hold.\<close>

definition parsePath :: "string list \<Rightarrow> string \<Rightarrow> parse_error + ParsedWarcraftLogsUrl" where
  "parsePath parts trimmedUrl =
     (case parts of
        sect # secondPart # rest \<Rightarrow>
          if sect \<noteq> ''character'' then Inl InvalidUrlPath
          else if secondPart = ''id'' then
            (case rest of
               [] \<Rightarrow> Inl CharacterIdMissing
             | thirdPart # _ \<Rightarrow>
                 if \<not> re_digits thirdPart then Inl InvalidCharacterId
                 else Inr (IdUrl thirdPart trimmedUrl))
          else
            (case rest of
               thirdPart # fourthPart # _ \<Rightarrow> validateSlug secondPart thirdPart fourthPart trimmedUrl
             | _ \<Rightarrow> Inl InvalidUrlStructure)
      | _ \<Rightarrow> Inl InvalidUrlStructure)"

definition parseWarcraftLogsCharacterUrl ::
    "(string \<Rightarrow> URL option) \<Rightarrow> js_value \<Rightarrow> parse_error + ParsedWarcraftLogsUrl" where
  "parseWarcraftLogsCharacterUrl newURL url =
     (case url of
        NotAString \<Rightarrow> Inl UrlRequired
      | Str s \<Rightarrow>
          if s = [] then Inl UrlRequired
          else let trimmedUrl = trim s
               in if trimmedUrl = [] then Inl UrlEmpty
                  else let urlToParse = (if startsWith trimmedUrl ''http'' then trimmedUrl
                                         else ''https://'' @ trimmedUrl)
                       in (case newURL urlToParse of
                             None \<Rightarrow> Inl InvalidUrlFormat
                           | Some parsedUrl \<Rightarrow>
                               if \<not> str_includes (hostname parsedUrl) ''warcraftlogs.com''
                               then Inl InvalidDomain
                               else parsePath (pathParts (pathname parsedUrl)) trimmedUrl))"

definition buildWarcraftLogsCharacterUrl :: "string \<Rightarrow> string \<Rightarrow> string \<Rightarrow> field_error + string" where
  "buildWarcraftLogsCharacterUrl region realm characterName =
     (case normalizeRegion region of
        Inl e \<Rightarrow> Inl e
      | Inr normalizedRegion \<Rightarrow>
         (case normalizeRealmSlug realm of
            Inl e \<Rightarrow> Inl e
          | Inr normalizedRealm \<Rightarrow>
             (case normalizeCharacterName characterName of
                Inl e \<Rightarrow> Inl e
              | Inr normalizedCharacterName \<Rightarrow>
                  Inr (''https://www.warcraftlogs.com/character/'' @ toLowerCase normalizedRegion
                       @ ''/'' @ normalizedRealm @ ''/'' @ toLowerCase normalizedCharacterName))))"

text \<open>
  The platform's \<^verbatim>\<open>new URL\<close> on plain inputs: \<^verbatim>\<open>http://\<close> or \<^verbatim>\<open>https://\<close>, a host of
  lower-case letters, digits, dots and hyphens that is not numeric, then a path of
  letters, digits, \<^verbatim>\<open>/\<close>, \<^verbatim>\<open>-\<close> and \<^verbatim>\<open>_\<close>. On these the platform returns the host and the
  path as they are written (and \<^verbatim>\<open>/\<close> for an empty path). The definition says nothing
  of the platform on inputs of any other shape (it answers \<open>None\<close> on those it
  recognises as such); it stands for \<open>newURL\<close> at concrete inputs of the plain shape
  only.
\<close>

definition url_host_chars :: string where
  "url_host_chars = lower_letters @ digits @ ''.-''"

definition url_path_chars :: string where
  "url_path_chars = lower_letters @ upper_letters @ digits @ ''/-_''"

definition plainURL :: "string \<Rightarrow> URL option" where
  "plainURL s =
     (let rest = (if startsWith s ''https://'' then Some (drop 8 s)
                  else if startsWith s ''http://'' then Some (drop 7 s) else None)
      in case rest of
           None \<Rightarrow> None
         | Some r \<Rightarrow>
            (let host = takeWhile (\<lambda>c. c \<noteq> CHR ''/'') r;
                 path = dropWhile (\<lambda>c. c \<noteq> CHR ''/'') r
             in if host \<noteq> [] \<and> list_all (\<lambda>c. c \<in> set url_host_chars) host
                   \<and> list_all (\<lambda>c. c \<in> set url_path_chars) path
                then Some \<lparr> hostname = host, pathname = (if path = [] then ''/'' else path) \<rparr>
                else None))"

text \<open>The shape of a normalised character name, and the path of the URL that
  \<^verbatim>\<open>buildWarcraftLogsCharacterUrl\<close> writes after the host.\<close>

definition capitalized :: "string \<Rightarrow> bool" where
  "capitalized n = (2 \<le> length n \<and> length n \<le> 12 \<and> hd n \<in> set upper_letters
     \<and> (\<forall>c \<in> set (tl n). c \<in> set lower_letters))"

definition canonical_path :: "string \<Rightarrow> string \<Rightarrow> string \<Rightarrow> string" where
  "canonical_path r rm n = ''/character/'' @ toLowerCase r @ ''/'' @ rm @ ''/'' @ toLowerCase n"


section \<open>Enrichment cache (character-enrichment-cache.ts)\<close>

text \<open>
  Instants are milliseconds since the epoch, the value of \<^verbatim>\<open>Date.getTime()\<close>. A date kept
  as text is represented by the date and time it spells, counted in milliseconds from
  the start of 1970; how \<^verbatim>\<open>new Date(...)\<close> turns the text of a date column into an instant
  is \<open>newDate\<close> below. JavaScript numbers are taken as exact rationals.
\<close>

datatype FetchStatus = Complete | Partial | Failed

datatype Difficulty = Mythic | Heroic | Normal

record BestKill =
  bossId :: int
  bossName :: string
  difficulty :: Difficulty
  orderIndex :: nat

text \<open>The \<^verbatim>\<open>PlayerCard\<close> interface of the enrich route. \<^verbatim>\<open>null\<close> and an absent optional
  field are \<open>None\<close>.\<close>

record PlayerCard =
  warcraftLogsUrl :: string
  characterName :: string
  realm :: string
  region :: string
  class_name :: "string option"
  spec :: "string option"
  avatarUrl :: "string option"
  bestKillLatestSeason :: "BestKill option"
  classSpec :: "string option"
  updatedAt :: int
  fetchStatus :: FetchStatus
  errorMessage :: "string option"
  seasonConfigUpdatedAt :: "string option"

text \<open>A row of \<^verbatim>\<open>character_enrichment_cache\<close>, as \<^verbatim>\<open>findCachedCharacter\<close> returns it. The
  column \<^verbatim>\<open>player_card\<close> holds the serialised card; \<open>None\<close> is the empty object
  \<^verbatim>\<open>{}\<close> that an empty column is read as.\<close>

record CharacterEnrichmentCache =
  row_region :: string
  row_realm :: string
  character_name :: string
  season_key :: string
  player_card :: "PlayerCard option"
  wcl_last_fetched_at :: "int option"
  blizzard_last_fetched_at :: "int option"
  fetch_status :: FetchStatus
  error_message :: "string option"
  created_at :: int
  updated_at :: int

text \<open>
  The columns \<^verbatim>\<open>created_at\<close> and \<^verbatim>\<open>updated_at\<close> are \<^verbatim>\<open>TEXT\<close> columns written by SQLite's
  \<^verbatim>\<open>DATETIME('now')\<close>: the date and time of the write in UTC, in the form
  \<^verbatim>\<open>YYYY-MM-DD HH:MM:SS\<close>, without a zone designator (and in whole seconds; the
  fraction of a second is not modelled). A column value is represented by the reading
  it spells, in milliseconds. \<^verbatim>\<open>new Date(text)\<close> reads a text of this form as a date and
  time of the local zone of the process, so the instant it returns is the reading
  minus the offset of the local zone from UTC (\<open>utcOffset\<close>, in milliseconds; positive
  east of Greenwich).
\<close>

definition newDate :: "int \<Rightarrow> int \<Rightarrow> int" where
  "newDate utcOffset reading = reading - utcOffset"

text \<open>\<^verbatim>\<open>isCacheStale(cache, maxAgeHours)\<close>; \<open>now\<close> is the instant \<^verbatim>\<open>new Date()\<close> returns.\<close>

definition hoursSinceUpdate :: "int \<Rightarrow> int \<Rightarrow> CharacterEnrichmentCache \<Rightarrow> rat" where
  "hoursSinceUpdate utcOffset now cache =
     of_int (now - newDate utcOffset (updated_at cache)) / (1000 * 60 * 60)"

definition isCacheStale :: "int \<Rightarrow> int \<Rightarrow> CharacterEnrichmentCache option \<Rightarrow> rat \<Rightarrow> bool" where
  "isCacheStale utcOffset now cache maxAgeHours =
     (case cache of
        None \<Rightarrow> True
      | Some c \<Rightarrow> hoursSinceUpdate utcOffset now c \<ge> maxAgeHours)"

text \<open>One hour in milliseconds, and a sample row written at a given instant.\<close>

definition hour_ms :: int where
  "hour_ms = 1000 * 60 * 60"

definition sample_row :: "int \<Rightarrow> CharacterEnrichmentCache" where
  "sample_row t = \<lparr> row_region = ''US'', row_realm = ''area-52'', character_name = ''Testchar'',
     season_key = ''latest'', player_card = None, wcl_last_fetched_at = None,
     blizzard_last_fetched_at = None, fetch_status = Complete, error_message = None,
     created_at = t, updated_at = t \<rparr>"

section \<open>Best-kill resolver (enrich-player-card route)\<close>

text \<open>
  The progression that \<^verbatim>\<open>fetchCharacterZoneProgression\<close> returns, and the encounter names
  of the season configuration. The difficulty of a kill is the upstream's numeric
  code, an integer here.
\<close>

record Kill =
  kill_difficulty :: int
  killDate :: "int option"

record Encounter =
  encounterId :: int
  encounterName :: string
  kills :: "Kill list"

record ZoneProgression =
  encounters :: "Encounter list"

record EncounterInfo =
  info_id :: int
  info_name :: string

definition DIFFICULTY_MAP :: "int \<Rightarrow> Difficulty option" where
  "DIFFICULTY_MAP d =
     (if d = 5 then Some Mythic else if d = 4 then Some Heroic
      else if d = 3 then Some Normal else None)"

fun DIFFICULTY_RANK :: "Difficulty \<Rightarrow> nat" where
  "DIFFICULTY_RANK Mythic = 3"
| "DIFFICULTY_RANK Heroic = 2"
| "DIFFICULTY_RANK Normal = 1"

text \<open>\<^verbatim>\<open>`Boss ${encounterId}`\<close> prints the identifier in decimal.\<close>

function decimal :: "nat \<Rightarrow> string" where
  "decimal n = (if n < 10 then [digits ! n] else decimal (n div 10) @ [digits ! (n mod 10)])"
  by pat_completeness auto
termination
  by (relation "measure id") auto

definition numberToString :: "int \<Rightarrow> string" where
  "numberToString i = (if i < 0 then CHR ''-'' # decimal (nat (- i)) else decimal (nat i))"

text \<open>The inner loop over \<^verbatim>\<open>encounter.kills\<close>, with the variable \<^verbatim>\<open>hardestDifficulty\<close> as
  accumulator.\<close>

fun hardestDifficulty :: "Difficulty option \<Rightarrow> Kill list \<Rightarrow> Difficulty option" where
  "hardestDifficulty hardest [] = hardest"
| "hardestDifficulty hardest (kill # rest) =
     hardestDifficulty
       (case DIFFICULTY_MAP (kill_difficulty kill) of
          None \<Rightarrow> hardest
        | Some difficultyName \<Rightarrow>
            (case hardest of
               None \<Rightarrow> Some difficultyName
             | Some h \<Rightarrow> if DIFFICULTY_RANK difficultyName > DIFFICULTY_RANK h
                         then Some difficultyName else hardest))
       rest"

text \<open>\<^verbatim>\<open>bossNameEntry?.name || `Boss ${encounterId}`\<close>\<close>

definition bossNameOf :: "EncounterInfo list \<Rightarrow> int \<Rightarrow> string" where
  "bossNameOf encounterNames eid =
     (case find (\<lambda>e. info_id e = eid) encounterNames of
        None \<Rightarrow> ''Boss '' @ numberToString eid
      | Some entry \<Rightarrow> if info_name entry = [] then ''Boss '' @ numberToString eid
                      else info_name entry)"

text \<open>The loop \<^verbatim>\<open>for (orderIndex = encounterOrder.length - 1; orderIndex >= 0; orderIndex--)\<close>:
  the last argument is \<^verbatim>\<open>orderIndex + 1\<close>, so the indices still to visit are those below
  it, all of them inside \<^verbatim>\<open>encounterOrder\<close>.\<close>

fun scanEncounterOrder ::
    "Encounter list \<Rightarrow> int list \<Rightarrow> EncounterInfo list \<Rightarrow> nat \<Rightarrow> BestKill option" where
  "scanEncounterOrder encs encounterOrder encounterNames 0 = None"
| "scanEncounterOrder encs encounterOrder encounterNames (Suc i) =
     (let eid = encounterOrder ! i
      in case find (\<lambda>e. encounterId e = eid) encs of
           None \<Rightarrow> scanEncounterOrder encs encounterOrder encounterNames i
         | Some encounter \<Rightarrow>
             if kills encounter = [] then scanEncounterOrder encs encounterOrder encounterNames i
             else (case hardestDifficulty None (kills encounter) of
                     None \<Rightarrow> scanEncounterOrder encs encounterOrder encounterNames i
                   | Some h \<Rightarrow>
                       Some \<lparr> bossId = eid, bossName = bossNameOf encounterNames eid,
                              difficulty = h, orderIndex = i \<rparr>))"

definition computeBestBossKill ::
    "ZoneProgression \<Rightarrow> int list \<Rightarrow> EncounterInfo list \<Rightarrow> BestKill option" where
  "computeBestBossKill progression encounterOrder encounterNames =
     (if encounters progression = [] then None
      else scanEncounterOrder (encounters progression) encounterOrder encounterNames
             (length encounterOrder))"

text \<open>The kills recorded for the encounter at an index of the order (none when the
  progression has no such encounter), and the difficulties of those kills that
  \<^verbatim>\<open>DIFFICULTY_MAP\<close> knows.\<close>

definition killsAt :: "ZoneProgression \<Rightarrow> int list \<Rightarrow> nat \<Rightarrow> Kill list" where
  "killsAt progression encounterOrder i =
     (case find (\<lambda>e. encounterId e = encounterOrder ! i) (encounters progression) of
        None \<Rightarrow> [] | Some encounter \<Rightarrow> kills encounter)"

definition rankedKills :: "Kill list \<Rightarrow> Difficulty list" where
  "rankedKills ks = List.map_filter (\<lambda>k. DIFFICULTY_MAP (kill_difficulty k)) ks"

text \<open>Sample inputs: an order of eight encounters with a Heroic kill at index 2 and a
  Normal and a Mythic kill at index 5; and an order of two encounters where the deeper
  one has a kill of the unmapped difficulty code 1 only.\<close>

definition mkKill :: "int \<Rightarrow> Kill" where
  "mkKill d = \<lparr> kill_difficulty = d, killDate = None \<rparr>"

definition sample_progression :: ZoneProgression where
  "sample_progression = \<lparr> encounters =
     [\<lparr> encounterId = 103, encounterName = ''Third'', kills = [mkKill 4] \<rparr>,
      \<lparr> encounterId = 106, encounterName = ''Sixth'', kills = [mkKill 3, mkKill 5] \<rparr>] \<rparr>"

definition sample_order :: "int list" where
  "sample_order = [101, 102, 103, 104, 105, 106, 107, 108]"

definition sample_names :: "EncounterInfo list" where
  "sample_names = [\<lparr> info_id = 103, info_name = ''Third'' \<rparr>, \<lparr> info_id = 106, info_name = ''Sixth'' \<rparr>]"

definition lfr_progression :: ZoneProgression where
  "lfr_progression = \<lparr> encounters =
     [\<lparr> encounterId = 101, encounterName = ''First'', kills = [mkKill 4] \<rparr>,
      \<lparr> encounterId = 102, encounterName = ''Second'', kills = [mkKill 1] \<rparr>] \<rparr>"

section \<open>Upstream protocol client (warcraft-logs-client.ts)\<close>

text \<open>
  The character of a raw upstream response. \<^verbatim>\<open>zoneRankings\<close> is untyped JSON: the field
  holds the values of the object in the order of \<^verbatim>\<open>Object.values\<close>, each value being
  \<open>Some\<close> of its \<^verbatim>\<open>rankings\<close> array or \<open>None\<close> when it has no such array (the empty list
  when \<^verbatim>\<open>zoneRankings\<close> is absent or not an object). An entry of a rankings array
  carries the fields the normalisation reads, each optional.
\<close>

record ZoneRanking =
  rk_spec :: "string option"
  rk_rankPercent :: "rat option"
  rk_encounter_name :: "string option"
  rk_encounterName :: "string option"
  rk_difficulty :: "int option"
  rk_killDate :: "int option"

record WclCharacter =
  wc_id :: "int option"
  wc_name :: string
  wc_server_name :: string
  wc_region_slug :: string
  wc_classID :: int
  wc_zoneRankings :: "ZoneRanking list option list"

record PercentileKill =
  pk_encounterName :: string
  pk_difficulty :: string
  pk_killDate :: "int option"
  pk_rankPercent :: rat

record ParsedWarcraftLogsData =
  wcl_characterId :: "string option"
  wcl_characterName :: string
  wcl_realm :: string
  wcl_region :: string
  wcl_class :: "string option"
  wcl_spec :: "string option"
  wcl_mostPlayedSpec :: "string option"
  wcl_bestKillLatestSeason :: "PercentileKill option"
  wcl_classSpec :: "string option"
  wcl_avatarUrl :: "string option"

text \<open>Truthiness of an optional string and of an optional number.\<close>

definition truthyStr :: "string option \<Rightarrow> bool" where
  "truthyStr v = (case v of None \<Rightarrow> False | Some s \<Rightarrow> s \<noteq> [])"

definition truthyNum :: "rat option \<Rightarrow> bool" where
  "truthyNum v = (case v of None \<Rightarrow> False | Some x \<Rightarrow> x \<noteq> 0)"

text \<open>\<^verbatim>\<open>allRankings = allRankings.concat(zoneData.rankings)\<close> over the zones.\<close>

definition allRankings :: "ZoneRanking list option list \<Rightarrow> ZoneRanking list" where
  "allRankings zones = concat (map (\<lambda>zoneData. case zoneData of None \<Rightarrow> [] | Some rs \<Rightarrow> rs) zones)"

text \<open>\<^verbatim>\<open>specCounts\<close> is a \<^verbatim>\<open>Map\<close>, which iterates in the order its keys were first set:
  an association list where a new key goes to the end and an old key keeps its
  place.\<close>

fun countSpec :: "(string \<times> nat) list \<Rightarrow> string \<Rightarrow> (string \<times> nat) list" where
  "countSpec [] s = [(s, 1)]"
| "countSpec ((k, c) # m) s = (if k = s then (k, c + 1) # m else (k, c) # countSpec m s)"

definition specCounts :: "ZoneRanking list \<Rightarrow> (string \<times> nat) list" where
  "specCounts rankings =
     foldl (\<lambda>m ranking. if truthyStr (rk_spec ranking) then countSpec m (the (rk_spec ranking)) else m)
       [] rankings"

fun pickMostPlayed :: "string option \<Rightarrow> nat \<Rightarrow> (string \<times> nat) list \<Rightarrow> string option" where
  "pickMostPlayed mostPlayedSpec maxCount [] = mostPlayedSpec"
| "pickMostPlayed mostPlayedSpec maxCount ((s, count) # rest) =
     (if count > maxCount then pickMostPlayed (Some s) count rest
      else pickMostPlayed mostPlayedSpec maxCount rest)"

text \<open>The loop for the best kill; \<^verbatim>\<open>ranking.rankPercent > bestKill.rankPercent\<close> is false
  when the right side is absent.\<close>

fun pickBestKill :: "ZoneRanking option \<Rightarrow> ZoneRanking list \<Rightarrow> ZoneRanking option" where
  "pickBestKill bestKill [] = bestKill"
| "pickBestKill bestKill (ranking # rest) =
     pickBestKill
       (if truthyNum (rk_rankPercent ranking)
           \<and> (case bestKill of
                 None \<Rightarrow> True
               | Some b \<Rightarrow> (case rk_rankPercent b of
                              None \<Rightarrow> False
                            | Some y \<Rightarrow> the (rk_rankPercent ranking) > y))
        then Some ranking else bestKill)
       rest"

definition difficultyMap :: "int \<Rightarrow> string option" where
  "difficultyMap d =
     (if d = 3 then Some ''Normal'' else if d = 4 then Some ''Heroic''
      else if d = 5 then Some ''Mythic'' else None)"

text \<open>\<^verbatim>\<open>Math.round(x * 100) / 100\<close>, the rounding of a half going up.\<close>

definition roundPercent :: "rat \<Rightarrow> rat" where
  "roundPercent x = of_int \<lfloor>x * 100 + 1 / 2\<rfloor> / 100"

definition killSummary :: "ZoneRanking \<Rightarrow> PercentileKill" where
  "killSummary bestKill =
     \<lparr> pk_encounterName =
         (if truthyStr (rk_encounter_name bestKill) then the (rk_encounter_name bestKill)
          else if truthyStr (rk_encounterName bestKill) then the (rk_encounterName bestKill)
          else ''Unknown''),
       pk_difficulty =
         (case rk_difficulty bestKill of
            None \<Rightarrow> ''Unknown''
          | Some d \<Rightarrow> (case difficultyMap d of None \<Rightarrow> ''Unknown'' | Some n \<Rightarrow> n)),
       pk_killDate = (case rk_killDate bestKill of
                        None \<Rightarrow> None | Some t \<Rightarrow> if t = 0 then None else Some t),
       pk_rankPercent = roundPercent (case rk_rankPercent bestKill of None \<Rightarrow> 0 | Some x \<Rightarrow> x) \<rparr>"

definition parseWarcraftLogsResponse :: "WclCharacter \<Rightarrow> ParsedWarcraftLogsData" where
  "parseWarcraftLogsResponse character =
     (let className = getWCLClassName (wc_classID character);
          rankings = allRankings (wc_zoneRankings character);
          mostPlayedSpec = pickMostPlayed None 0 (specCounts rankings);
          bestKill = pickBestKill None rankings
      in \<lparr> wcl_characterId =
             (case wc_id character of
                None \<Rightarrow> None | Some i \<Rightarrow> if i = 0 then None else Some (numberToString i)),
           wcl_characterName = wc_name character,
           wcl_realm = wc_server_name character,
           wcl_region = toUpperCase (wc_region_slug character),
           wcl_class = Some className,
           wcl_spec = mostPlayedSpec,
           wcl_mostPlayedSpec = mostPlayedSpec,
           wcl_bestKillLatestSeason = map_option killSummary bestKill,
           wcl_classSpec =
             (case mostPlayedSpec of
                None \<Rightarrow> Some className
              | Some s \<Rightarrow> if s = [] then Some className else Some (className @ '' '' @ s)),
           wcl_avatarUrl = None \<rparr>)"

text \<open>
  The words of the specification: the spec values that are counted, the position at
  which a spec is first seen, the entries that carry a rank percentile, and the
  percentile of such an entry.
\<close>

definition countedSpecs :: "ZoneRanking list \<Rightarrow> string list" where
  "countedSpecs rankings = map (\<lambda>r. the (rk_spec r)) (filter (\<lambda>r. truthyStr (rk_spec r)) rankings)"

definition firstSeen :: "string list \<Rightarrow> string \<Rightarrow> nat" where
  "firstSeen specs s = length (takeWhile (\<lambda>t. t \<noteq> s) specs)"

definition rated :: "ZoneRanking list \<Rightarrow> ZoneRanking list" where
  "rated rankings = filter (\<lambda>r. truthyNum (rk_rankPercent r)) rankings"

definition percentile :: "ZoneRanking \<Rightarrow> rat" where
  "percentile r = (case rk_rankPercent r of None \<Rightarrow> 0 | Some x \<Rightarrow> x)"

text \<open>Sample inputs: a character with two zones of rankings in which two specs occur
  twice each and two entries share the highest percentile; and a character whose only
  entry has the percentile 0.\<close>

definition mkRanking :: "string \<Rightarrow> rat \<Rightarrow> string \<Rightarrow> ZoneRanking" where
  "mkRanking s p e = \<lparr> rk_spec = Some s, rk_rankPercent = Some p, rk_encounter_name = Some e,
     rk_encounterName = None, rk_difficulty = Some 4, rk_killDate = None \<rparr>"

definition sample_character :: WclCharacter where
  "sample_character = \<lparr> wc_id = Some 64213375, wc_name = ''Testchar'', wc_server_name = ''Area 52'',
     wc_region_slug = ''us'', wc_classID = 8,
     wc_zoneRankings = [Some [mkRanking ''Outlaw'' 80 ''A'', mkRanking ''Subtlety'' 95 ''B''],
                        None,
                        Some [mkRanking ''Subtlety'' 95 ''C'', mkRanking ''Outlaw'' 40 ''D'']] \<rparr>"

definition zero_character :: WclCharacter where
  "zero_character = \<lparr> wc_id = Some 1, wc_name = ''Testchar'', wc_server_name = ''Area 52'',
     wc_region_slug = ''us'', wc_classID = 8,
     wc_zoneRankings = [Some [mkRanking ''Outlaw'' 0 ''A'']] \<rparr>"

section \<open>Cache operations (character-enrichment-cache.ts)\<close>

text \<open>
  The table \<^verbatim>\<open>character_enrichment_cache\<close> is the list of its rows, in insertion order.
  The database is taken to answer every statement; \<^verbatim>\<open>DATETIME('now')\<close> is the clock
  reading passed as \<open>now\<close>. The columns \<^verbatim>\<open>id\<close> and \<^verbatim>\<open>character_id\<close> are left out: no statement
  of the module writes \<^verbatim>\<open>character_id\<close>, and \<^verbatim>\<open>id\<close> is read only to fetch the row just
  inserted.
\<close>

type_synonym cache_table = "CharacterEnrichmentCache list"

record CharacterLookup =
  lk_region :: string
  lk_realm :: string
  lk_character_name :: string
  lk_season_key :: "string option"

text \<open>The argument of \<^verbatim>\<open>upsertCacheEntry\<close>, of type
  \<^verbatim>\<open>CharacterEnrichmentCacheCreate & CharacterEnrichmentCacheUpdate\<close>, which it also passes
  on as the \<^verbatim>\<open>updates\<close> of \<^verbatim>\<open>updateCacheEntry\<close>. An optional field that is \<^verbatim>\<open>undefined\<close> is
  \<open>None\<close>; a field supplied as \<^verbatim>\<open>null\<close> is \<open>Some None\<close>.\<close>

record CacheData =
  d_character_id :: "string option option"
  d_region :: string
  d_realm :: string
  d_character_name :: string
  d_season_key :: "string option"
  d_player_card :: "PlayerCard option"
  d_wcl_last_fetched_at :: "int option option"
  d_blizzard_last_fetched_at :: "int option option"
  d_fetch_status :: "FetchStatus option"
  d_error_message :: "string option option"

text \<open>\<^verbatim>\<open>season_key || 'latest'\<close>\<close>

definition seasonKeyOr :: "string option \<Rightarrow> string" where
  "seasonKeyOr k = (case k of None \<Rightarrow> ''latest'' | Some s \<Rightarrow> if s = [] then ''latest'' else s)"

text \<open>\<^verbatim>\<open>WHERE region = ? AND realm = ? AND character_name = ? AND season_key = ?\<close>\<close>

definition rowMatches :: "CharacterLookup \<Rightarrow> CharacterEnrichmentCache \<Rightarrow> bool" where
  "rowMatches lookup row =
     (row_region row = lk_region lookup \<and> row_realm row = lk_realm lookup
      \<and> character_name row = lk_character_name lookup
      \<and> season_key row = seasonKeyOr (lk_season_key lookup))"

definition findCachedCharacter :: "cache_table \<Rightarrow> CharacterLookup \<Rightarrow> CharacterEnrichmentCache option" where
  "findCachedCharacter table lookup = find (rowMatches lookup) table"

definition createCacheEntry ::
    "cache_table \<Rightarrow> int \<Rightarrow> CacheData \<Rightarrow> CharacterEnrichmentCache \<times> cache_table" where
  "createCacheEntry table now data =
     (let created =
        \<lparr> row_region = d_region data, row_realm = d_realm data,
          character_name = d_character_name data,
          season_key = seasonKeyOr (d_season_key data),
          player_card = d_player_card data,
          wcl_last_fetched_at = (case d_wcl_last_fetched_at data of Some (Some t) \<Rightarrow> Some t | _ \<Rightarrow> None),
          blizzard_last_fetched_at =
            (case d_blizzard_last_fetched_at data of Some (Some t) \<Rightarrow> Some t | _ \<Rightarrow> None),
          fetch_status = (case d_fetch_status data of None \<Rightarrow> Partial | Some st \<Rightarrow> st),
          error_message =
            (case d_error_message data of
               Some (Some e) \<Rightarrow> if e = [] then None else Some e
             | _ \<Rightarrow> None),
          created_at = now, updated_at = now \<rparr>
      in (created, table @ [created]))"

text \<open>The \<^verbatim>\<open>SET\<close> clause of \<^verbatim>\<open>updateCacheEntry\<close>: each supplied field, then \<^verbatim>\<open>updated_at\<close>.\<close>

definition applyUpdates :: "int \<Rightarrow> CacheData \<Rightarrow> CharacterEnrichmentCache \<Rightarrow> CharacterEnrichmentCache" where
  "applyUpdates now updates row =
     row \<lparr> player_card := (case d_player_card updates of None \<Rightarrow> player_card row | Some c \<Rightarrow> Some c),
           wcl_last_fetched_at :=
             (case d_wcl_last_fetched_at updates of None \<Rightarrow> wcl_last_fetched_at row | Some v \<Rightarrow> v),
           blizzard_last_fetched_at :=
             (case d_blizzard_last_fetched_at updates of
                None \<Rightarrow> blizzard_last_fetched_at row | Some v \<Rightarrow> v),
           fetch_status := (case d_fetch_status updates of None \<Rightarrow> fetch_status row | Some st \<Rightarrow> st),
           error_message := (case d_error_message updates of None \<Rightarrow> error_message row | Some v \<Rightarrow> v),
           updated_at := now \<rparr>"

text \<open>\<^verbatim>\<open>fields.length === 1\<close>: none of the five optional fields is supplied.\<close>

definition noFields :: "CacheData \<Rightarrow> bool" where
  "noFields updates =
     (d_player_card updates = None \<and> d_wcl_last_fetched_at updates = None
      \<and> d_blizzard_last_fetched_at updates = None \<and> d_fetch_status updates = None
      \<and> d_error_message updates = None)"

definition updateCacheEntry ::
    "cache_table \<Rightarrow> int \<Rightarrow> CharacterLookup \<Rightarrow> CacheData
       \<Rightarrow> CharacterEnrichmentCache option \<times> cache_table" where
  "updateCacheEntry table now lookup updates =
     (if noFields updates then (findCachedCharacter table lookup, table)
      else let table' = map (\<lambda>row. if rowMatches lookup row then applyUpdates now updates row
                                    else row) table
           in (findCachedCharacter table' lookup, table'))"

definition lookupOf :: "CacheData \<Rightarrow> CharacterLookup" where
  "lookupOf data = \<lparr> lk_region = d_region data, lk_realm = d_realm data,
     lk_character_name = d_character_name data, lk_season_key = d_season_key data \<rparr>"

definition upsertCacheEntry ::
    "cache_table \<Rightarrow> int \<Rightarrow> CacheData \<Rightarrow> CharacterEnrichmentCache option \<times> cache_table" where
  "upsertCacheEntry table now data =
     (case findCachedCharacter table (lookupOf data) of
        Some existing \<Rightarrow> updateCacheEntry table now (lookupOf data) data
      | None \<Rightarrow> (case createCacheEntry table now data of (created, table') \<Rightarrow> (Some created, table')))"



section \<open>Upstream fetches (warcraft-logs-client.ts)\<close>

text \<open>
  An error thrown by the client is an \<^verbatim>\<open>Error\<close> object with a message and, where the client
  sets one, a \<^verbatim>\<open>code\<close>. The upstream service is given by its replies to the two
  exchanges of a fetch: the token request and the character query.
\<close>

record WclError =
  err_code :: "string option"
  err_message :: string

datatype token_reply =
    TokenGranted
  | TokenHttpError string
  | TokenNetworkError

datatype query_reply =
    QueryHttpError string string
  | QueryNetworkError string
  | QueryErrors string
  | QueryNoCharacter
  | QueryCharacter WclCharacter

text \<open>\<^verbatim>\<open>isWarcraftLogsConfigured()\<close> and the credentials check of \<^verbatim>\<open>getWarcraftLogsToken\<close> read
  the same two environment variables (the route passes no \<^verbatim>\<open>config\<close>): one flag
  \<open>configured\<close>. The argument of \<open>TokenHttpError\<close> is \<^verbatim>\<open>`${status} ${statusText}`\<close>.\<close>

definition getWarcraftLogsToken :: "bool \<Rightarrow> token_reply \<Rightarrow> WclError + unit" where
  "getWarcraftLogsToken configured reply =
     (if \<not> configured
      then Inl \<lparr> err_code = Some ''WCL_CONFIG_MISSING'',
                 err_message = ''Warcraft Logs API credentials not configured'' \<rparr>
      else (case reply of
              TokenGranted \<Rightarrow> Inr ()
            | TokenHttpError st \<Rightarrow>
                Inl \<lparr> err_code = Some ''WCL_OAUTH_FAILED'', err_message = ''WCL OAuth failed: '' @ st \<rparr>
            | TokenNetworkError \<Rightarrow>
                Inl \<lparr> err_code = Some ''WCL_OAUTH_NETWORK_ERROR'',
                      err_message = ''Network error connecting to Warcraft Logs OAuth'' \<rparr>))"

text \<open>\<^verbatim>\<open>fetchWarcraftLogsCharacter\<close>: the token is acquired before the \<^verbatim>\<open>try\<close>; inside it, an
  error without a code (a transport failure, or a response that cannot be read) is
  replaced by \<^verbatim>\<open>WCL_GRAPHQL_NETWORK_ERROR\<close>.\<close>

definition fetchWarcraftLogsCharacter ::
    "bool \<Rightarrow> token_reply \<Rightarrow> query_reply \<Rightarrow> WclError + ParsedWarcraftLogsData" where
  "fetchWarcraftLogsCharacter configured token reply =
     (case getWarcraftLogsToken configured token of
        Inl e \<Rightarrow> Inl e
      | Inr _ \<Rightarrow>
         (case reply of
            QueryHttpError st txt \<Rightarrow>
              Inl \<lparr> err_code = Some ''WCL_GRAPHQL_FAILED'',
                    err_message = ''WCL GraphQL request failed: '' @ st \<rparr>
          | QueryNetworkError m \<Rightarrow>
              Inl \<lparr> err_code = Some ''WCL_GRAPHQL_NETWORK_ERROR'',
                    err_message = ''Network error connecting to Warcraft Logs API'' \<rparr>
          | QueryErrors msgs \<Rightarrow>
              Inl \<lparr> err_code = Some ''WCL_GRAPHQL_ERROR'', err_message = ''WCL API error: '' @ msgs \<rparr>
          | QueryNoCharacter \<Rightarrow>
              Inl \<lparr> err_code = Some ''WCL_CHARACTER_NOT_FOUND'',
                    err_message = ''Character not found on Warcraft Logs'' \<rparr>
          | QueryCharacter c \<Rightarrow> Inr (parseWarcraftLogsResponse c)))"

text \<open>\<^verbatim>\<open>fetchWarcraftLogsCharacterById\<close> has no \<^verbatim>\<open>try\<close>: a transport failure is thrown as it
  is, and its own errors carry no code.\<close>

definition fetchWarcraftLogsCharacterById ::
    "bool \<Rightarrow> token_reply \<Rightarrow> query_reply \<Rightarrow> string \<Rightarrow> WclError + ParsedWarcraftLogsData" where
  "fetchWarcraftLogsCharacterById configured token reply characterId =
     (case getWarcraftLogsToken configured token of
        Inl e \<Rightarrow> Inl e
      | Inr _ \<Rightarrow>
         (case reply of
            QueryHttpError st txt \<Rightarrow>
              Inl \<lparr> err_code = None, err_message = ''WCL API request failed: '' @ st @ '' '' @ txt \<rparr>
          | QueryNetworkError m \<Rightarrow> Inl \<lparr> err_code = None, err_message = m \<rparr>
          | QueryErrors msgs \<Rightarrow> Inl \<lparr> err_code = None, err_message = ''WCL API error: '' @ msgs \<rparr>
          | QueryNoCharacter \<Rightarrow>
              Inl \<lparr> err_code = None,
                    err_message = ''Character with ID '' @ characterId @ '' not found on Warcraft Logs'' \<rparr>
          | QueryCharacter c \<Rightarrow> Inr (parseWarcraftLogsResponse c)))"

section \<open>Responses (api-response.ts, errors.ts)\<close>

text \<open>Modelled from the spec: the constants of \<^verbatim>\<open>HttpStatus\<close>, whose module http-status is
  not among the source files. The specification maps success to 200, an invalid
  reference to 400, an upstream failure to 502 and a missing configuration to 503;
  500 is the unexpected server error.\<close>

definition HttpStatus_OK :: nat where "HttpStatus_OK = 200"
definition HttpStatus_BAD_REQUEST :: nat where "HttpStatus_BAD_REQUEST = 400"
definition HttpStatus_INTERNAL_SERVER_ERROR :: nat where "HttpStatus_INTERNAL_SERVER_ERROR = 500"
definition HttpStatus_BAD_GATEWAY :: nat where "HttpStatus_BAD_GATEWAY = 502"
definition HttpStatus_SERVICE_UNAVAILABLE :: nat where "HttpStatus_SERVICE_UNAVAILABLE = 503"

text \<open>The values the enrich route passes to \<^verbatim>\<open>errorResponse\<close>: a string, or \<^verbatim>\<open>new Error(msg)\<close>.
  Neither is an \<^verbatim>\<open>AppError\<close> nor has a \<^verbatim>\<open>code\<close> property, so \<^verbatim>\<open>handleError\<close> takes its last
  branch, where only an \<^verbatim>\<open>Error\<close> object keeps its message.\<close>

datatype error_value = StringValue string | PlainError string

definition handleError :: "error_value \<Rightarrow> nat \<times> string" where
  "handleError error =
     (500, case error of PlainError m \<Rightarrow> m | StringValue s \<Rightarrow> ''An unexpected error occurred'')"

record ApiResponse =
  status :: nat
  success :: bool
  message :: "string option"
  data :: "PlayerCard option"

definition successResponse :: "PlayerCard \<Rightarrow> string option \<Rightarrow> ApiResponse" where
  "successResponse d msg =
     \<lparr> status = HttpStatus_OK, success = True,
       message = (case msg of None \<Rightarrow> None | Some m \<Rightarrow> if m = [] then None else Some m),
       data = Some d \<rparr>"

definition errorResponse :: "error_value \<Rightarrow> nat option \<Rightarrow> ApiResponse" where
  "errorResponse error statusCode =
     (let errorData = handleError error;
          finalStatusCode = (case statusCode of
                               None \<Rightarrow> fst errorData
                             | Some c \<Rightarrow> if c = 0 then fst errorData else c)
      in \<lparr> status = finalStatusCode, success = False, message = Some (snd errorData), data = None \<rparr>)"

section \<open>Orchestrator (POST /api/enrich-player-card)\<close>

record SeasonConfig =
  tier_name :: string
  wcl_zone_id :: int
  encounter_order :: "int list"
  encounter_names :: "EncounterInfo list"
  config_updated_at :: string

text \<open>
  What a request meets outside the route: whether the credentials are set, whether the
  database answers the connectivity check, the clock, the offset of the local zone of
  the process from UTC, the platform's URL parser, the
  active season configuration (\<open>None\<close> when there is none or loading it fails), the
  upstream replies to the token request and to the character query, and the result of
  \<^verbatim>\<open>fetchCharacterZoneProgression\<close> (\<open>None\<close> when it throws). After the connectivity check
  the database answers every statement.
\<close>

record Env =
  wcl_configured :: bool
  db_available :: bool
  clock :: int
  utc_offset :: int
  newURL :: "string \<Rightarrow> URL option"
  season_config :: "SeasonConfig option"
  token :: token_reply
  character_reply :: query_reply
  zone_progression :: "ZoneProgression option"

text \<open>The JSON body of a request: \<^verbatim>\<open>warcraftLogsUrl\<close> is any value, \<^verbatim>\<open>seasonKey\<close> may be
  absent, \<^verbatim>\<open>forceRefresh\<close> is read for its truthiness.\<close>

record EnrichRequest =
  req_warcraftLogsUrl :: js_value
  req_seasonKey :: "string option"
  req_forceRefresh :: bool

definition CACHE_TTL_HOURS :: rat where
  "CACHE_TTL_HOURS = 6"

text \<open>\<^verbatim>\<open>x || null\<close> on an optional string.\<close>

definition orNull :: "string option \<Rightarrow> string option" where
  "orNull v = (case v of None \<Rightarrow> None | Some s \<Rightarrow> if s = [] then None else Some s)"

definition buildPlayerCardFromCache ::
    "CharacterEnrichmentCache \<Rightarrow> string \<Rightarrow> string option \<Rightarrow> PlayerCard" where
  "buildPlayerCardFromCache cached url seasonConfigUpdated =
     \<lparr> warcraftLogsUrl = url,
       characterName = character_name cached,
       realm = row_realm cached,
       region = row_region cached,
       class_name = (case player_card cached of None \<Rightarrow> None | Some pc \<Rightarrow> orNull (class_name pc)),
       spec = (case player_card cached of None \<Rightarrow> None | Some pc \<Rightarrow> orNull (spec pc)),
       avatarUrl = (case player_card cached of None \<Rightarrow> None | Some pc \<Rightarrow> orNull (avatarUrl pc)),
       bestKillLatestSeason =
         (case player_card cached of None \<Rightarrow> None | Some pc \<Rightarrow> bestKillLatestSeason pc),
       classSpec = (case player_card cached of None \<Rightarrow> None | Some pc \<Rightarrow> orNull (classSpec pc)),
       updatedAt = updated_at cached,
       fetchStatus = fetch_status cached,
       errorMessage = orNull (error_message cached),
       seasonConfigUpdatedAt = orNull seasonConfigUpdated \<rparr>"

definition fetchBestBossKill :: "Env \<Rightarrow> BestKill option" where
  "fetchBestBossKill env =
     (case season_config env of
        None \<Rightarrow> None
      | Some activeSeasonConfig \<Rightarrow>
         (case zone_progression env of
            None \<Rightarrow> None
          | Some progression \<Rightarrow>
              computeBestBossKill progression (encounter_order activeSeasonConfig)
                (encounter_names activeSeasonConfig)))"

definition freshPlayerCard ::
    "Env \<Rightarrow> string \<Rightarrow> ParsedWarcraftLogsData \<Rightarrow> string option \<Rightarrow> PlayerCard" where
  "freshPlayerCard env url wclData seasonConfigUpdated =
     \<lparr> warcraftLogsUrl = url,
       characterName = wcl_characterName wclData,
       realm = wcl_realm wclData,
       region = wcl_region wclData,
       class_name = wcl_class wclData,
       spec = wcl_spec wclData,
       avatarUrl = wcl_avatarUrl wclData,
       bestKillLatestSeason = fetchBestBossKill env,
       classSpec = wcl_classSpec wclData,
       updatedAt = clock env,
       fetchStatus = Complete,
       errorMessage = None,
       seasonConfigUpdatedAt = orNull seasonConfigUpdated \<rparr>"

definition completeEntry :: "Env \<Rightarrow> string \<Rightarrow> string \<Rightarrow> string \<Rightarrow> string
     \<Rightarrow> ParsedWarcraftLogsData \<Rightarrow> PlayerCard \<Rightarrow> CacheData" where
  "completeEntry env rg rm nm seasonKey wclData playerCard =
     \<lparr> d_character_id = Some (wcl_characterId wclData), d_region = rg, d_realm = rm,
       d_character_name = nm, d_season_key = Some seasonKey, d_player_card = Some playerCard,
       d_wcl_last_fetched_at = Some (Some (clock env)), d_blizzard_last_fetched_at = None,
       d_fetch_status = Some Complete, d_error_message = Some None \<rparr>"

definition failedEntry :: "string \<Rightarrow> string \<Rightarrow> string \<Rightarrow> string \<Rightarrow> string \<Rightarrow> CacheData" where
  "failedEntry rg rm nm seasonKey errorMessage' =
     \<lparr> d_character_id = None, d_region = rg, d_realm = rm,
       d_character_name = nm, d_season_key = Some seasonKey, d_player_card = None,
       d_wcl_last_fetched_at = None, d_blizzard_last_fetched_at = None,
       d_fetch_status = Some Failed, d_error_message = Some (Some errorMessage') \<rparr>"

text \<open>The error responses of the two \<^verbatim>\<open>catch\<close> blocks when no cached data is at hand; they
  differ in the text for a character that is not found.\<close>

definition errorCodeOf :: "WclError \<Rightarrow> string" where
  "errorCodeOf e = (case err_code e of None \<Rightarrow> ''UNKNOWN'' | Some c \<Rightarrow> if c = [] then ''UNKNOWN'' else c)"

definition notFoundSlugText :: string where
  "notFoundSlugText = ''Character not found on Warcraft Logs. The character may have been deleted, transferred, or doesn't exist. Please verify the character name, realm, and region.''"

definition notFoundIdText :: string where
  "notFoundIdText = ''Character not found on Warcraft Logs. The character may have been deleted, transferred, or the URL is outdated. Please provide an updated Warcraft Logs character URL.''"

definition fetchErrorResponse :: "string \<Rightarrow> WclError \<Rightarrow> ApiResponse" where
  "fetchErrorResponse notFoundText e =
     (let errorCode = errorCodeOf e; errorMessage' = err_message e
      in if errorCode = ''WCL_OAUTH_FAILED''
         then errorResponse (PlainError ''Could not authenticate with Warcraft Logs'')
                (Some HttpStatus_BAD_GATEWAY)
         else if errorCode = ''WCL_GRAPHQL_FAILED'' \<or> errorCode = ''WCL_GRAPHQL_ERROR''
         then errorResponse (PlainError ''Warcraft Logs API request failed'')
                (Some HttpStatus_BAD_GATEWAY)
         else if errorCode = ''WCL_CHARACTER_NOT_FOUND'' \<or> str_includes errorMessage' ''not found''
         then errorResponse (PlainError notFoundText) (Some HttpStatus_BAD_GATEWAY)
         else errorResponse (PlainError (''Warcraft Logs API error: '' @ errorMessage'))
                (Some HttpStatus_BAD_GATEWAY))"

text \<open>The full-format branch of \<^verbatim>\<open>POST\<close>, from the cache lookup on.\<close>

definition enrichSlug ::
    "Env \<Rightarrow> cache_table \<Rightarrow> string \<Rightarrow> bool \<Rightarrow> string option
       \<Rightarrow> string \<Rightarrow> string \<Rightarrow> string \<Rightarrow> string \<Rightarrow> ApiResponse \<times> cache_table" where
  "enrichSlug env table seasonKey forceRefresh seasonConfigUpdated rg rm nm originalUrl =
     (let cachedData =
            (if \<not> forceRefresh
             then findCachedCharacter table
                    \<lparr> lk_region = rg, lk_realm = rm, lk_character_name = nm,
                      lk_season_key = Some seasonKey \<rparr>
             else None)
      in if cachedData \<noteq> None \<and> \<not> isCacheStale (utc_offset env) (clock env) cachedData CACHE_TTL_HOURS
         then (successResponse
                 (buildPlayerCardFromCache (the cachedData) originalUrl seasonConfigUpdated)
                 (Some ''Player card returned from cache''), table)
         else if \<not> wcl_configured env
         then (case cachedData of
                 Some cached \<Rightarrow>
                   (successResponse (buildPlayerCardFromCache cached originalUrl seasonConfigUpdated)
                      (Some ''WCL API not configured. Returning stale cached data.''), table)
               | None \<Rightarrow>
                   (errorResponse
                      (StringValue ''Warcraft Logs API is not configured and no cached data is available'')
                      (Some HttpStatus_SERVICE_UNAVAILABLE), table))
         else (case fetchWarcraftLogsCharacter (wcl_configured env) (token env) (character_reply env) of
                 Inr wclData \<Rightarrow>
                   (let playerCard = freshPlayerCard env originalUrl wclData seasonConfigUpdated
                    in (successResponse playerCard (Some ''Player card enriched successfully''),
                        snd (upsertCacheEntry table (clock env)
                               (completeEntry env rg rm nm seasonKey wclData playerCard))))
               | Inl wclError \<Rightarrow>
                   (case cachedData of
                      Some cached \<Rightarrow>
                        (successResponse
                           ((buildPlayerCardFromCache cached originalUrl seasonConfigUpdated)
                              \<lparr> errorMessage := Some (''Failed to fetch fresh data: ''
                                    @ err_message wclError @ ''. Returning cached data.'') \<rparr>)
                           (Some ''Returning cached data (fetch failed)''),
                         snd (upsertCacheEntry table (clock env)
                                (failedEntry rg rm nm seasonKey (err_message wclError))))
                    | None \<Rightarrow> (fetchErrorResponse notFoundSlugText wclError, table))))"

text \<open>The branch of \<^verbatim>\<open>POST\<close> for a reference by numeric identifier.\<close>

definition enrichId ::
    "Env \<Rightarrow> cache_table \<Rightarrow> string \<Rightarrow> bool \<Rightarrow> string option
       \<Rightarrow> string \<Rightarrow> string \<Rightarrow> ApiResponse \<times> cache_table" where
  "enrichId env table seasonKey forceRefresh seasonConfigUpdated characterId originalUrl =
     (if \<not> wcl_configured env
      then (errorResponse
              (StringValue ''Warcraft Logs API is not configured. Cannot resolve character ID.'')
              (Some HttpStatus_SERVICE_UNAVAILABLE), table)
      else (case fetchWarcraftLogsCharacterById (wcl_configured env) (token env)
                   (character_reply env) characterId of
              Inl idFetchError \<Rightarrow> (fetchErrorResponse notFoundIdText idFetchError, table)
            | Inr wclData \<Rightarrow>
               (let cachedData =
                      (if \<not> forceRefresh
                       then findCachedCharacter table
                              \<lparr> lk_region = wcl_region wclData, lk_realm = wcl_realm wclData,
                                lk_character_name = wcl_characterName wclData,
                                lk_season_key = Some seasonKey \<rparr>
                       else None)
                in if cachedData \<noteq> None \<and> \<not> isCacheStale (utc_offset env) (clock env) cachedData CACHE_TTL_HOURS
                   then (successResponse
                           (buildPlayerCardFromCache (the cachedData) originalUrl seasonConfigUpdated)
                           None, table)
                   else (let playerCard = freshPlayerCard env originalUrl wclData seasonConfigUpdated
                         in (successResponse playerCard (Some ''Player card enriched successfully''),
                             snd (upsertCacheEntry table (clock env)
                                    (completeEntry env (wcl_region wclData) (wcl_realm wclData)
                                       (wcl_characterName wclData) seasonKey wclData playerCard)))))))"

text \<open>\<^verbatim>\<open>POST\<close>. The body is \<open>None\<close> when \<^verbatim>\<open>request.json()\<close> throws, which the outer \<^verbatim>\<open>catch\<close>
  turns into the answer 500. The answer 400 for a reference that does not parse is
  built from the string \<^verbatim>\<open>`Invalid Warcraft Logs URL: ${error.message}`\<close>, of which
  \<^verbatim>\<open>handleError\<close> keeps nothing.\<close>

definition POST :: "Env \<Rightarrow> cache_table \<Rightarrow> EnrichRequest option \<Rightarrow> ApiResponse \<times> cache_table" where
  "POST env table body =
     (if \<not> wcl_configured env
      then (errorResponse
              (StringValue ''Warcraft Logs API credentials not configured. Please contact administrator.'')
              (Some HttpStatus_SERVICE_UNAVAILABLE), table)
      else if \<not> db_available env
      then (errorResponse (StringValue ''Database unavailable. Please try again later.'')
              (Some HttpStatus_SERVICE_UNAVAILABLE), table)
      else (case body of
              None \<Rightarrow>
                (errorResponse
                   (StringValue ''An unexpected server error occurred. Please try again later.'')
                   (Some HttpStatus_INTERNAL_SERVER_ERROR), table)
            | Some req \<Rightarrow>
               (let seasonKey = (case req_seasonKey req of None \<Rightarrow> ''latest'' | Some k \<Rightarrow> k);
                    forceRefresh = req_forceRefresh req;
                    seasonConfigUpdated = map_option config_updated_at (season_config env)
                in if req_warcraftLogsUrl req = NotAString \<or> req_warcraftLogsUrl req = Str []
                   then (errorResponse
                           (StringValue ''warcraftLogsUrl is required and must be a string'')
                           (Some HttpStatus_BAD_REQUEST), table)
                   else (case parseWarcraftLogsCharacterUrl (newURL env) (req_warcraftLogsUrl req) of
                           Inl e \<Rightarrow>
                             (errorResponse (StringValue ''Invalid Warcraft Logs URL'')
                                (Some HttpStatus_BAD_REQUEST), table)
                         | Inr (IdUrl characterId originalUrl) \<Rightarrow>
                             enrichId env table seasonKey forceRefresh seasonConfigUpdated
                               characterId originalUrl
                         | Inr (SlugUrl rg rm nm originalUrl) \<Rightarrow>
                             enrichSlug env table seasonKey forceRefresh seasonConfigUpdated
                               rg rm nm originalUrl))))"

text \<open>Sample inputs: a request for a slug-form reference, and the environment of a
  process in the zone UTC whose upstream refuses the token, with or without credentials.\<close>

definition sample_url :: string where
  "sample_url = ''https://www.warcraftlogs.com/character/us/area-52/testchar''"

definition sample_request :: "bool \<Rightarrow> EnrichRequest" where
  "sample_request force = \<lparr> req_warcraftLogsUrl = Str sample_url, req_seasonKey = None,
     req_forceRefresh = force \<rparr>"

definition sample_lookup :: CharacterLookup where
  "sample_lookup = \<lparr> lk_region = ''US'', lk_realm = ''area-52'', lk_character_name = ''Testchar'',
     lk_season_key = Some ''latest'' \<rparr>"

definition sample_env :: "bool \<Rightarrow> int \<Rightarrow> Env" where
  "sample_env configured now = \<lparr> wcl_configured = configured, db_available = True, clock = now,
     utc_offset = 0,
     newURL = plainURL, season_config = None, token = TokenHttpError ''401 Unauthorized'',
     character_reply = QueryNoCharacter, zone_progression = None \<rparr>"

text \<open>
  A row as a successful fetch leaves it, and the environment of a later request. The
  stored card carries the realm under the name the upstream gives it, an empty
  class-spec text and the stamp of the season configuration of the time of the fetch;
  by the time of the request the active season configuration has a later stamp.
\<close>

definition stored_card :: PlayerCard where
  "stored_card = \<lparr> warcraftLogsUrl = ''https://www.warcraftlogs.com/character/us/area-52/Testchar'',
     characterName = ''Testchar'', realm = ''Area 52'', region = ''US'',
     class_name = Some ''Mage'', spec = Some ''Frost'', avatarUrl = None,
     bestKillLatestSeason = None, classSpec = Some [], updatedAt = 0, fetchStatus = Complete,
     errorMessage = None, seasonConfigUpdatedAt = Some ''2025-01-10 08:00:00'' \<rparr>"

definition stored_row :: CharacterEnrichmentCache where
  "stored_row = \<lparr> row_region = ''US'', row_realm = ''area-52'', character_name = ''Testchar'',
     season_key = ''latest'', player_card = Some stored_card, wcl_last_fetched_at = Some 0,
     blizzard_last_fetched_at = None, fetch_status = Complete, error_message = None,
     created_at = 0, updated_at = 0 \<rparr>"

definition later_season :: SeasonConfig where
  "later_season = \<lparr> tier_name = ''Manaforge Omega'', wcl_zone_id = 44, encounter_order = [],
     encounter_names = [], config_updated_at = ''2025-03-01 12:00:00'' \<rparr>"

definition later_env :: "bool \<Rightarrow> Env" where
  "later_env configured = \<lparr> wcl_configured = configured, db_available = True, clock = 5 * hour_ms,
     utc_offset = 0,
     newURL = plainURL, season_config = Some later_season,
     token = TokenHttpError ''401 Unauthorized'',
     character_reply = QueryNoCharacter, zone_progression = None \<rparr>"

text \<open>
  The conditions under which the specification lets the parser reject a reference.
  The test on the host is a parameter \<open>hostOk\<close>: the parser asks that the host contain
  the text \<^verbatim>\<open>warcraftlogs.com\<close>; \<open>upstreamHost\<close> is the stricter reading, the upstream
  domain or one of its subdomains.
\<close>

definition endsWith :: "string \<Rightarrow> string \<Rightarrow> bool" where
  "endsWith s suffix = (length suffix \<le> length s \<and> drop (length s - length suffix) s = suffix)"

definition upstreamHost :: "string \<Rightarrow> bool" where
  "upstreamHost h = (h = ''warcraftlogs.com'' \<or> endsWith h ''.warcraftlogs.com'')"

definition containsUpstream :: "string \<Rightarrow> bool" where
  "containsUpstream h = str_includes h ''warcraftlogs.com''"

definition regionRejected :: "string \<Rightarrow> bool" where
  "regionRejected r = (toLowerCase r \<notin> set VALID_REGIONS)"

definition realmRejected :: "string \<Rightarrow> bool" where
  "realmRejected r = (\<not> re_slug (trim (toLowerCase r)))"

definition nameRejected :: "string \<Rightarrow> bool" where
  "nameRejected n = (length (trim n) < 2 \<or> 12 < length (trim n) \<or> \<not> re_letters (trim n))"

definition pathRejected :: "string list \<Rightarrow> bool" where
  "pathRejected parts =
     (length parts < 2 \<or> parts ! 0 \<noteq> ''character''
      \<or> (if parts ! 1 = ''id'' then length parts < 3 \<or> \<not> re_digits (parts ! 2)
          else length parts < 4 \<or> regionRejected (parts ! 1) \<or> realmRejected (parts ! 2)
               \<or> nameRejected (parts ! 3)))"

definition referenceRejected :: "(string \<Rightarrow> bool) \<Rightarrow> (string \<Rightarrow> URL option) \<Rightarrow> js_value \<Rightarrow> bool" where
  "referenceRejected hostOk urlOf input =
     (case input of
        NotAString \<Rightarrow> True
      | Str s \<Rightarrow>
          s = [] \<or> trim s = []
          \<or> (case urlOf (if startsWith (trim s) ''http'' then trim s else ''https://'' @ trim s) of
                None \<Rightarrow> True
              | Some u \<Rightarrow> \<not> hostOk (hostname u) \<or> pathRejected (pathParts (pathname u))))"

section \<open>Properties\<close>

subsection \<open>Class Name Table\<close>

text \<open>
  C10. \<^verbatim>\<open>getWCLClassName\<close> is a total function on the integers: on 1 to 13 it returns the
  name the table holds (1 Death Knight, 2 Druid, 6 Paladin, 8 Rogue, 11 Warrior,
  13 Evoker among them), and on every other integer, such as 0, 14 or a negative
  one, it returns the string Unknown.
\<close>

theorem getWCLClassName_total:
  "getWCLClassName 1 = ''Death Knight'' \<and> getWCLClassName 2 = ''Druid''
   \<and> getWCLClassName 3 = ''Hunter'' \<and> getWCLClassName 4 = ''Mage''
   \<and> getWCLClassName 5 = ''Monk'' \<and> getWCLClassName 6 = ''Paladin''
   \<and> getWCLClassName 7 = ''Priest'' \<and> getWCLClassName 8 = ''Rogue''
   \<and> getWCLClassName 9 = ''Shaman'' \<and> getWCLClassName 10 = ''Warlock''
   \<and> getWCLClassName 11 = ''Warrior'' \<and> getWCLClassName 12 = ''Demon Hunter''
   \<and> getWCLClassName 13 = ''Evoker''
   \<and> (\<forall>i. (i < 1 \<or> 13 < i) = (getWCLClassName i = ''Unknown''))
   \<and> (\<forall>i. (1 \<le> i \<and> i \<le> 13) = (WCL_CLASS_ID_TO_NAME i = Some (getWCLClassName i)))
   \<and> getWCLClassName 0 = ''Unknown'' \<and> getWCLClassName 14 = ''Unknown''
   \<and> getWCLClassName (- 1) = ''Unknown''"
proof -
  have out: "(i < 1 \<or> 13 < i) = (getWCLClassName i = ''Unknown'')" for i
  proof (cases "1 \<le> i \<and> i \<le> 13")
    case True
    then have "i = 1 \<or> i = 2 \<or> i = 3 \<or> i = 4 \<or> i = 5 \<or> i = 6 \<or> i = 7 \<or> i = 8 \<or> i = 9
       \<or> i = 10 \<or> i = 11 \<or> i = 12 \<or> i = 13"
      by arith
    then show ?thesis
      by (auto simp: getWCLClassName_def WCL_CLASS_ID_TO_NAME_def)
  next
    case False
    then show ?thesis
      by (auto simp: getWCLClassName_def WCL_CLASS_ID_TO_NAME_def)
  qed
  have tab: "(1 \<le> i \<and> i \<le> 13) = (WCL_CLASS_ID_TO_NAME i = Some (getWCLClassName i))" for i
  proof (cases "1 \<le> i \<and> i \<le> 13")
    case True
    then have "i = 1 \<or> i = 2 \<or> i = 3 \<or> i = 4 \<or> i = 5 \<or> i = 6 \<or> i = 7 \<or> i = 8 \<or> i = 9
       \<or> i = 10 \<or> i = 11 \<or> i = 12 \<or> i = 13"
      by arith
    then show ?thesis
      by (auto simp: getWCLClassName_def WCL_CLASS_ID_TO_NAME_def)
  next
    case False
    then show ?thesis
      by (auto simp: getWCLClassName_def WCL_CLASS_ID_TO_NAME_def)
  qed
  have names: "getWCLClassName 1 = ''Death Knight'' \<and> getWCLClassName 2 = ''Druid''
   \<and> getWCLClassName 3 = ''Hunter'' \<and> getWCLClassName 4 = ''Mage''
   \<and> getWCLClassName 5 = ''Monk'' \<and> getWCLClassName 6 = ''Paladin''
   \<and> getWCLClassName 7 = ''Priest'' \<and> getWCLClassName 8 = ''Rogue''
   \<and> getWCLClassName 9 = ''Shaman'' \<and> getWCLClassName 10 = ''Warlock''
   \<and> getWCLClassName 11 = ''Warrior'' \<and> getWCLClassName 12 = ''Demon Hunter''
   \<and> getWCLClassName 13 = ''Evoker''
   \<and> getWCLClassName 0 = ''Unknown'' \<and> getWCLClassName 14 = ''Unknown''
   \<and> getWCLClassName (- 1) = ''Unknown''"
    by (simp add: getWCLClassName_def WCL_CLASS_ID_TO_NAME_def)
  from out tab names show ?thesis by blast
qed

subsection \<open>Staleness\<close>

text \<open>
  What \<^verbatim>\<open>isCacheStale\<close> computes: an absent entry is stale; a present one is stale when the
  hours from the reading of \<^verbatim>\<open>updated_at\<close> to the clock, plus the offset of the local zone
  from UTC, reach the threshold.
\<close>

lemma isCacheStale_unfold:
  "isCacheStale off now entry h =
     (entry = None \<or> (\<exists>c. entry = Some c \<and> of_int (now - updated_at c + off) / 3600000 \<ge> h))"
  by (cases entry) (simp_all add: isCacheStale_def hoursSinceUpdate_def newDate_def algebra_simps)

lemma isCacheStale_later:
  assumes "isCacheStale off now entry h" and "now \<le> now'"
  shows "isCacheStale off now' entry h"
proof (cases entry)
  case None
  then show ?thesis by (simp add: isCacheStale_def)
next
  case (Some c)
  have "(of_int (now - updated_at c + off) :: rat) / 3600000
          \<le> of_int (now' - updated_at c + off) / 3600000"
    using assms(2) by (simp add: divide_right_mono)
  with Some assms(1) show ?thesis by (auto simp: isCacheStale_unfold)
qed

text \<open>In a process whose local zone is UTC the age is the true one: with a threshold of
  6 hours a row written 7 hours ago is stale and one written 5 hours ago is not.\<close>

lemma isCacheStale_utc:
  "isCacheStale 0 (t + 7 * hour_ms) (Some (sample_row t)) 6
   \<and> \<not> isCacheStale 0 (t + 5 * hour_ms) (Some (sample_row t)) 6"
  by (simp add: isCacheStale_def hoursSinceUpdate_def newDate_def hour_ms_def sample_row_def)

text \<open>
  C6 at concrete rows, outside UTC. In a process five hours west of Greenwich
  (offset \<open>- 5 * hour_ms\<close>) a row written 7 hours ago is read as 2 hours old and is not
  stale at the threshold of 6 hours, and stays so until it is 11 hours old; in a process
  two hours east of Greenwich a row written 5 hours ago is read as 7 hours old and is
  stale. The description of the function (true if the cache has not been updated in the
  given number of hours) gives the opposite answer in both cases.
\<close>

theorem isCacheStale_local_time:
  "hoursSinceUpdate (- 5 * hour_ms) (t + 7 * hour_ms) (sample_row t) = 2
   \<and> \<not> isCacheStale (- 5 * hour_ms) (t + 7 * hour_ms) (Some (sample_row t)) 6
   \<and> \<not> isCacheStale (- 5 * hour_ms) (t + 10 * hour_ms) (Some (sample_row t)) 6
   \<and> isCacheStale (- 5 * hour_ms) (t + 11 * hour_ms) (Some (sample_row t)) 6
   \<and> hoursSinceUpdate (2 * hour_ms) (t + 5 * hour_ms) (sample_row t) = 7
   \<and> isCacheStale (2 * hour_ms) (t + 5 * hour_ms) (Some (sample_row t)) 6"
  by (simp add: isCacheStale_def hoursSinceUpdate_def newDate_def hour_ms_def sample_row_def)

subsection \<open>Identity parser\<close>

lemma slug_char_props:
  assumes "c \<in> set lower_letters \<or> c \<in> set digits \<or> c = CHR ''-''"
  shows "c \<notin> set upper_letters \<and> c \<notin> set white_space \<and> c \<noteq> CHR ''/''"
  using assms unfolding lower_letters_def digits_def
  by (simp, elim disjE) (simp_all add: upper_letters_def white_space_def)

lemma upper_letter_props:
  assumes "c \<in> set upper_letters"
  shows "c \<notin> set lower_letters \<and> c \<notin> set white_space \<and> c \<noteq> CHR ''/''
         \<and> lowerChar c \<in> set lower_letters \<and> upperChar (lowerChar c) = c"
  using assms unfolding upper_letters_def
  by (simp, elim disjE)
     (simp_all add: lower_letters_def white_space_def lowerChar_def upperChar_def upper_letters_def)

lemma lower_letter_props:
  assumes "c \<in> set lower_letters"
  shows "upperChar c \<in> set upper_letters \<and> lowerChar (upperChar c) = c"
  using assms unfolding lower_letters_def
  by (simp, elim disjE)
     (simp_all add: lower_letters_def lowerChar_def upperChar_def upper_letters_def)

lemma lowerChar_fix: "c \<notin> set upper_letters \<Longrightarrow> lowerChar c = c"
  by (simp add: lowerChar_def upper_letters_def lower_letters_def)

lemma upperChar_fix: "c \<notin> set lower_letters \<Longrightarrow> upperChar c = c"
  by (simp add: upperChar_def upper_letters_def lower_letters_def)

lemma lowerChar_idem: "lowerChar (lowerChar c) = lowerChar c"
proof (cases "c \<in> set upper_letters")
  case True
  then have "lowerChar c \<in> set lower_letters" using upper_letter_props by blast
  then have "lowerChar c \<notin> set upper_letters" using slug_char_props by blast
  then show ?thesis by (rule lowerChar_fix)
next
  case False
  then show ?thesis by (simp add: lowerChar_fix)
qed

lemma upper_lower: "upperChar (lowerChar c) = upperChar c"
proof (cases "c \<in> set upper_letters")
  case True
  then have "upperChar (lowerChar c) = c" "c \<notin> set lower_letters"
    using upper_letter_props by blast+
  then show ?thesis by (simp add: upperChar_fix)
next
  case False
  then show ?thesis by (simp add: lowerChar_fix)
qed

lemma lower_upper: "lowerChar (upperChar c) = lowerChar c"
proof (cases "c \<in> set lower_letters")
  case True
  then have "lowerChar (upperChar c) = c" "c \<notin> set upper_letters"
    using lower_letter_props slug_char_props by blast+
  then show ?thesis by (simp add: lowerChar_fix)
next
  case False
  then show ?thesis by (simp add: upperChar_fix)
qed

lemma dropWhile_none: "(\<forall>c \<in> set s. \<not> P c) \<Longrightarrow> dropWhile P s = s"
  by (cases s) auto

lemma trim_no_space: "(\<forall>c \<in> set s. c \<notin> set white_space) \<Longrightarrow> trim s = s"
  by (simp add: trim_def dropWhile_none)

lemma trim_ends:
  assumes "s \<noteq> []" "hd s \<notin> set white_space" "last s \<notin> set white_space"
  shows "trim s = s"
proof -
  from assms have a: "dropWhile (\<lambda>c. c \<in> set white_space) s = s"
    by (cases s) auto
  from assms have "rev s \<noteq> []" "hd (rev s) \<notin> set white_space"
    by (simp_all add: hd_rev)
  then have "dropWhile (\<lambda>c. c \<in> set white_space) (rev s) = rev s"
    by (cases "rev s") auto
  with a show ?thesis by (simp add: trim_def)
qed

lemma split_on_none: "d \<notin> set w \<Longrightarrow> split_on d w = [w]"
  by (induction w) auto

lemma split_on_app: "d \<notin> set w \<Longrightarrow> split_on d (w @ d # r) = w # split_on d r"
  by (induction w) auto

lemma pathParts_canonical:
  assumes "CHR ''/'' \<notin> set a" "CHR ''/'' \<notin> set b" "CHR ''/'' \<notin> set c"
    and "a \<noteq> []" "b \<noteq> []" "c \<noteq> []"
  shows "pathParts (''/character/'' @ a @ ''/'' @ b @ ''/'' @ c) = [''character'', a, b, c]"
proof -
  have "split_on CHR ''/'' (''/character/'' @ a @ ''/'' @ b @ ''/'' @ c)
      = [] # ''character'' # split_on CHR ''/'' (a @ CHR ''/'' # b @ CHR ''/'' # c)"
    by simp
  also have "split_on CHR ''/'' (a @ CHR ''/'' # b @ CHR ''/'' # c) = [a, b, c]"
    using assms by (simp add: split_on_app split_on_none)
  finally show ?thesis using assms by (simp add: pathParts_def)
qed

lemma normalizeRegion_result:
  assumes "normalizeRegion x = Inr r"
  shows "r \<in> set [''US'', ''EU'', ''KR'', ''TW'', ''CN'']"
proof -
  from assms have "toLowerCase x \<in> set VALID_REGIONS" "r = toUpperCase (toLowerCase x)"
    by (auto simp: normalizeRegion_def Let_def split: if_splits)
  then show ?thesis
    unfolding VALID_REGIONS_def
    by (auto simp: toUpperCase_def upperChar_def lower_letters_def upper_letters_def)
qed

lemma region_codes:
  assumes "r \<in> set [''US'', ''EU'', ''KR'', ''TW'', ''CN'']"
  shows "normalizeRegion r = Inr r \<and> normalizeRegion (toLowerCase r) = Inr r
       \<and> toLowerCase r \<noteq> ''id'' \<and> toLowerCase r \<noteq> [] \<and> CHR ''/'' \<notin> set (toLowerCase r)"
  using assms
  by (simp, elim disjE)
     (simp_all add: normalizeRegion_def VALID_REGIONS_def toLowerCase_def toUpperCase_def
        lowerChar_def upperChar_def lower_letters_def upper_letters_def)

lemma re_slug_fix:
  assumes "re_slug s"
  shows "toLowerCase s = s \<and> trim s = s \<and> s \<noteq> [] \<and> CHR ''/'' \<notin> set s"
proof -
  from assms have ne: "s \<noteq> []"
    and all: "\<forall>c \<in> set s. c \<in> set lower_letters \<or> c \<in> set digits \<or> c = CHR ''-''"
    by (simp_all add: re_slug_def list_all_iff)
  have p: "\<forall>c \<in> set s. c \<notin> set upper_letters \<and> c \<notin> set white_space \<and> c \<noteq> CHR ''/''"
    using all slug_char_props by blast
  have "toLowerCase s = s"
    unfolding toLowerCase_def using p by (simp add: map_idI lowerChar_fix)
  moreover have "trim s = s" using p by (simp add: trim_no_space)
  moreover have "CHR ''/'' \<notin> set s" using p by blast
  ultimately show ?thesis using ne by simp
qed

lemma normalizeRealmSlug_result:
  assumes "normalizeRealmSlug x = Inr rm"
  shows "re_slug rm"
  using assms by (auto simp: normalizeRealmSlug_def Let_def split: if_splits)

lemma normalizeRealmSlug_fix: "re_slug rm \<Longrightarrow> normalizeRealmSlug rm = Inr rm"
  using re_slug_fix [of rm] by (simp add: normalizeRealmSlug_def)

lemma normalizeCharacterName_result:
  assumes "normalizeCharacterName x = Inr n"
  shows "capitalized n"
proof -
  define t where "t = trim x"
  from assms have len: "2 \<le> length t" "length t \<le> 12" and ltr: "re_letters t"
    and n: "n = toUpperCase (take 1 t) @ toLowerCase (drop 1 t)"
    by (auto simp: normalizeCharacterName_def Let_def t_def split: if_splits)
  from len obtain c cs where t: "t = c # cs" by (cases t) auto
  from ltr t have c: "c \<in> set lower_letters \<or> c \<in> set upper_letters"
    and cs: "\<forall>d \<in> set cs. d \<in> set lower_letters \<or> d \<in> set upper_letters"
    by (simp_all add: re_letters_def list_all_iff)
  have n': "n = upperChar c # map lowerChar cs"
    using n t by (simp add: toUpperCase_def toLowerCase_def)
  have "upperChar c \<in> set upper_letters"
    using c lower_letter_props upper_letter_props upperChar_fix by metis
  moreover have "\<forall>d \<in> set (map lowerChar cs). d \<in> set lower_letters"
  proof
    fix d assume "d \<in> set (map lowerChar cs)"
    then obtain e where e: "e \<in> set cs" "d = lowerChar e" by auto
    with cs have "e \<in> set lower_letters \<or> e \<in> set upper_letters" by blast
    then show "d \<in> set lower_letters"
      using e upper_letter_props slug_char_props lowerChar_fix by metis
  qed
  ultimately show ?thesis using len t n' by (simp add: capitalized_def)
qed

lemma capitalized_fix:
  assumes "capitalized n"
  shows "normalizeCharacterName n = Inr n \<and> normalizeCharacterName (toLowerCase n) = Inr n
     \<and> toLowerCase n \<noteq> [] \<and> CHR ''/'' \<notin> set (toLowerCase n)
     \<and> last (toLowerCase n) \<notin> set white_space"
proof -
  from assms obtain c cs where n: "n = c # cs" by (cases n) (auto simp: capitalized_def)
  from assms n have len: "2 \<le> length n" "length n \<le> 12" and c: "c \<in> set upper_letters"
    and cs: "\<forall>d \<in> set cs. d \<in> set lower_letters"
    by (simp_all add: capitalized_def)
  have nows: "\<forall>d \<in> set n. d \<notin> set white_space"
    using n c cs upper_letter_props slug_char_props by auto
  have letters: "re_letters n"
    using n c cs by (auto simp: re_letters_def list_all_iff)
  have lowfix: "map lowerChar cs = cs"
    using cs slug_char_props by (simp add: map_idI lowerChar_fix)
  have upc: "upperChar c = c" using c upper_letter_props by (simp add: upperChar_fix)
  have a: "normalizeCharacterName n = Inr n"
    using len letters trim_no_space [OF nows] n lowfix upc
    by (auto simp: normalizeCharacterName_def Let_def toUpperCase_def toLowerCase_def)
  define l where "l = toLowerCase n"
  have l: "l = lowerChar c # cs" using n lowfix by (simp add: l_def toLowerCase_def)
  have lc: "lowerChar c \<in> set lower_letters" "upperChar (lowerChar c) = c"
    using c upper_letter_props by blast+
  have lall: "\<forall>d \<in> set l. d \<in> set lower_letters" using l lc cs by simp
  then have lprops: "\<forall>d \<in> set l. d \<notin> set white_space \<and> d \<noteq> CHR ''/''"
    using slug_char_props by blast
  have lnows: "\<forall>d \<in> set l. d \<notin> set white_space" using lprops by blast
  have lletters: "re_letters l" using l lall by (auto simp: re_letters_def list_all_iff)
  have llen: "length l = length n" by (simp add: l_def toLowerCase_def)
  have b: "normalizeCharacterName l = Inr n"
    using len llen lletters trim_no_space [OF lnows] l n lowfix lc
    by (auto simp: normalizeCharacterName_def Let_def toUpperCase_def toLowerCase_def)
  have "l \<noteq> []" using l by simp
  moreover have "CHR ''/'' \<notin> set l" using lprops by blast
  moreover have "last l \<notin> set white_space" using lprops \<open>l \<noteq> []\<close> last_in_set by blast
  ultimately show ?thesis using a b by (simp add: l_def)
qed

lemma validateSlug_fields:
  assumes "validateSlug a b c t = Inr (SlugUrl r rm n orig)"
  shows "normalizeRegion a = Inr r \<and> normalizeRealmSlug b = Inr rm
         \<and> normalizeCharacterName c = Inr n \<and> orig = t"
  using assms by (auto simp: validateSlug_def split: sum.splits)

lemma parsePath_slug:
  assumes "parsePath parts t = Inr (SlugUrl r rm n orig)"
  shows "\<exists>a b c. validateSlug a b c t = Inr (SlugUrl r rm n orig)"
  using assms by (auto simp: parsePath_def split: list.splits if_splits)

lemma parse_slug_fields:
  assumes "parseWarcraftLogsCharacterUrl urlOf inp = Inr (SlugUrl r rm n orig)"
  shows "\<exists>a b c. normalizeRegion a = Inr r \<and> normalizeRealmSlug b = Inr rm
         \<and> normalizeCharacterName c = Inr n"
proof -
  from assms obtain parts t where "parsePath parts t = Inr (SlugUrl r rm n orig)"
    by (auto simp: parseWarcraftLogsCharacterUrl_def Let_def
          split: js_value.splits if_splits option.splits)
  then show ?thesis using parsePath_slug validateSlug_fields by blast
qed

text \<open>
  C4. When a reference parses to the slug form with region, realm and character name,
  \<^verbatim>\<open>buildWarcraftLogsCharacterUrl\<close> succeeds on these three and returns the canonical URL,
  and parsing that URL gives the same region, realm and character name again. The
  second hypothesis is the behaviour of the platform's URL parser on the canonical URL:
  it returns its host and its path unchanged.
\<close>

theorem parse_build_roundtrip:
  assumes "parseWarcraftLogsCharacterUrl urlOf inp = Inr (SlugUrl r rm n orig)"
    and "urlOf (''https://www.warcraftlogs.com'' @ canonical_path r rm n)
           = Some \<lparr> hostname = ''www.warcraftlogs.com'', pathname = canonical_path r rm n \<rparr>"
  shows "buildWarcraftLogsCharacterUrl r rm n
           = Inr (''https://www.warcraftlogs.com'' @ canonical_path r rm n)
       \<and> parseWarcraftLogsCharacterUrl urlOf (Str (''https://www.warcraftlogs.com'' @ canonical_path r rm n))
           = Inr (SlugUrl r rm n (''https://www.warcraftlogs.com'' @ canonical_path r rm n))"
proof -
  from parse_slug_fields [OF assms(1)] obtain a b c where
    f: "normalizeRegion a = Inr r" "normalizeRealmSlug b = Inr rm" "normalizeCharacterName c = Inr n"
    by blast
  have rg: "normalizeRegion r = Inr r" "normalizeRegion (toLowerCase r) = Inr r"
    "toLowerCase r \<noteq> ''id''" "toLowerCase r \<noteq> []" "CHR ''/'' \<notin> set (toLowerCase r)"
    using region_codes [OF normalizeRegion_result [OF f(1)]] by blast+
  have slug: "re_slug rm" using f(2) by (rule normalizeRealmSlug_result)
  have rl: "normalizeRealmSlug rm = Inr rm" "rm \<noteq> []" "CHR ''/'' \<notin> set rm"
    using normalizeRealmSlug_fix [OF slug] re_slug_fix [OF slug] by blast+
  have cap: "capitalized n" using f(3) by (rule normalizeCharacterName_result)
  have nm: "normalizeCharacterName n = Inr n" "normalizeCharacterName (toLowerCase n) = Inr n"
    "toLowerCase n \<noteq> []" "CHR ''/'' \<notin> set (toLowerCase n)"
    "last (toLowerCase n) \<notin> set white_space"
    using capitalized_fix [OF cap] by blast+
  define u where "u = ''https://www.warcraftlogs.com'' @ canonical_path r rm n"
  have build: "buildWarcraftLogsCharacterUrl r rm n = Inr u"
    using rg(1) rl(1) nm(1) by (simp add: buildWarcraftLogsCharacterUrl_def u_def canonical_path_def)
  have une: "u \<noteq> []" by (simp add: u_def)
  have hd: "hd u \<notin> set white_space" by (simp add: u_def white_space_def)
  have "last u = last (toLowerCase n)"
    using nm(3) by (simp add: u_def canonical_path_def)
  then have lst: "last u \<notin> set white_space" using nm(5) by simp
  have tr: "trim u = u" using une hd lst by (rule trim_ends)
  have sw: "startsWith u ''http''" by (simp add: u_def startsWith_def)
  have inc: "str_includes ''www.warcraftlogs.com'' ''warcraftlogs.com''"
    by (simp add: startsWith_def)
  have parts: "pathParts (canonical_path r rm n) = [''character'', toLowerCase r, rm, toLowerCase n]"
    unfolding canonical_path_def using rg(4,5) rl(2,3) nm(3,4) by (intro pathParts_canonical)
  have path: "parsePath [''character'', toLowerCase r, rm, toLowerCase n] u = Inr (SlugUrl r rm n u)"
    using rg(2,3) rl(1) nm(2) by (simp add: parsePath_def validateSlug_def)
  have nu: "urlOf u = Some \<lparr> hostname = ''www.warcraftlogs.com'', pathname = canonical_path r rm n \<rparr>"
    unfolding u_def by (rule assms(2))
  have "parseWarcraftLogsCharacterUrl urlOf (Str u) = Inr (SlugUrl r rm n u)"
    by (simp add: parseWarcraftLogsCharacterUrl_def une tr sw nu inc parts path
          del: str_includes.simps)
  with build show ?thesis by (simp add: u_def)
qed

lemma plain_ok: "plainURL ''https://www.warcraftlogs.com/character/us/area-52/testchar''
   = Some \<lparr> hostname = ''www.warcraftlogs.com'', pathname = ''/character/us/area-52/testchar'' \<rparr>"
  by (simp add: plainURL_def startsWith_def url_host_chars_def url_path_chars_def
      lower_letters_def upper_letters_def digits_def)

lemma parse_sample: "parseWarcraftLogsCharacterUrl plainURL (Str ''www.warcraftlogs.com/character/US/Area-52/TESTCHAR'')
  = Inr (SlugUrl ''US'' ''area-52'' ''Testchar'' ''www.warcraftlogs.com/character/US/Area-52/TESTCHAR'')"
  by code_simp

lemma canon_sample: "canonical_path ''US'' ''area-52'' ''Testchar'' = ''/character/us/area-52/testchar''"
  by code_simp

theorem parse_build_roundtrip_witness:
  "parseWarcraftLogsCharacterUrl plainURL (Str ''www.warcraftlogs.com/character/US/Area-52/TESTCHAR'')
     = Inr (SlugUrl ''US'' ''area-52'' ''Testchar'' ''www.warcraftlogs.com/character/US/Area-52/TESTCHAR'')
   \<and> buildWarcraftLogsCharacterUrl ''US'' ''area-52'' ''Testchar''
     = Inr ''https://www.warcraftlogs.com/character/us/area-52/testchar''
   \<and> parseWarcraftLogsCharacterUrl plainURL (Str ''https://www.warcraftlogs.com/character/us/area-52/testchar'')
     = Inr (SlugUrl ''US'' ''area-52'' ''Testchar'' ''https://www.warcraftlogs.com/character/us/area-52/testchar'')"
proof -
  have h2: "plainURL (''https://www.warcraftlogs.com'' @ canonical_path ''US'' ''area-52'' ''Testchar'')
     = Some \<lparr> hostname = ''www.warcraftlogs.com'', pathname = canonical_path ''US'' ''area-52'' ''Testchar'' \<rparr>"
    using plain_ok by (simp add: canon_sample)
  from parse_build_roundtrip [OF parse_sample h2] parse_sample
  show ?thesis by (simp add: canon_sample)
qed

subsection \<open>Best-kill resolver\<close>

lemma hardest_acc:
  "hardestDifficulty h ks = None \<longleftrightarrow> h = None \<and> rankedKills ks = []"
  by (induction ks arbitrary: h)
     (auto simp: rankedKills_def List.map_filter_def split: option.splits)

lemma hardest_max_gen:
  assumes "hardestDifficulty h ks = Some d"
  shows "(Some d = h \<or> d \<in> set (rankedKills ks))
       \<and> (\<forall>x \<in> set (rankedKills ks). DIFFICULTY_RANK x \<le> DIFFICULTY_RANK d)
       \<and> (\<forall>x. h = Some x \<longrightarrow> DIFFICULTY_RANK x \<le> DIFFICULTY_RANK d)"
  using assms
proof (induction ks arbitrary: h)
  case Nil
  then show ?case by (simp add: rankedKills_def List.map_filter_def)
next
  case (Cons k ks)
  show ?case
  proof (cases "DIFFICULTY_MAP (kill_difficulty k)")
    case None
    with Cons.prems have "hardestDifficulty h ks = Some d" by simp
    from Cons.IH [OF this] None show ?thesis
      by (simp add: rankedKills_def List.map_filter_def)
  next
    case (Some n)
    show ?thesis
    proof (cases h)
      case None
      with Some Cons.prems have "hardestDifficulty (Some n) ks = Some d" by simp
      from Cons.IH [OF this] Some None show ?thesis
        by (auto simp: rankedKills_def List.map_filter_def)
    next
      case (Some x)
      show ?thesis
      proof (cases "DIFFICULTY_RANK n > DIFFICULTY_RANK x")
        case True
        with Some \<open>DIFFICULTY_MAP (kill_difficulty k) = Some n\<close> Cons.prems
        have "hardestDifficulty (Some n) ks = Some d" by simp
        from Cons.IH [OF this] \<open>DIFFICULTY_MAP (kill_difficulty k) = Some n\<close> Some True show ?thesis
          by (auto simp: rankedKills_def List.map_filter_def)
      next
        case False
        with Some \<open>DIFFICULTY_MAP (kill_difficulty k) = Some n\<close> Cons.prems
        have "hardestDifficulty (Some x) ks = Some d" by simp
        from Cons.IH [OF this] \<open>DIFFICULTY_MAP (kill_difficulty k) = Some n\<close> Some False show ?thesis
          by (auto simp: rankedKills_def List.map_filter_def)
      qed
    qed
  qed
qed

lemma hardest_none: "hardestDifficulty None ks = None \<longleftrightarrow> rankedKills ks = []"
  by (simp add: hardest_acc)

lemma hardest_max:
  assumes "hardestDifficulty None ks = Some d"
  shows "d \<in> set (rankedKills ks) \<and> (\<forall>x \<in> set (rankedKills ks). DIFFICULTY_RANK x \<le> DIFFICULTY_RANK d)"
  using hardest_max_gen [OF assms] by simp

lemma scan_step:
  "scanEncounterOrder (encounters p) ord names (Suc i) =
     (case hardestDifficulty None (killsAt p ord i) of
        None \<Rightarrow> scanEncounterOrder (encounters p) ord names i
      | Some h \<Rightarrow> Some \<lparr> bossId = ord ! i, bossName = bossNameOf names (ord ! i),
                           difficulty = h, orderIndex = i \<rparr>)"
  by (simp add: killsAt_def Let_def split: option.splits)

lemma scan_none:
  "scanEncounterOrder (encounters p) ord names n = None
     \<longleftrightarrow> (\<forall>i<n. rankedKills (killsAt p ord i) = [])"
proof (induction n)
  case 0
  then show ?case by simp
next
  case (Suc n)
  show ?case
  proof (cases "hardestDifficulty None (killsAt p ord n)")
    case None
    then have "rankedKills (killsAt p ord n) = []" by (simp add: hardest_none)
    with None Suc show ?thesis
      by (simp only: scan_step option.case) (auto simp: less_Suc_eq)
  next
    case (Some h)
    then have "rankedKills (killsAt p ord n) \<noteq> []"
      using hardest_none [of "killsAt p ord n"] by simp
    with Some show ?thesis
      by (simp only: scan_step option.case) auto
  qed
qed

lemma scan_some:
  assumes "scanEncounterOrder (encounters p) ord names n = Some bk"
  shows "orderIndex bk < n \<and> bossId bk = ord ! orderIndex bk
       \<and> bossName bk = bossNameOf names (bossId bk)
       \<and> difficulty bk \<in> set (rankedKills (killsAt p ord (orderIndex bk)))
       \<and> (\<forall>x \<in> set (rankedKills (killsAt p ord (orderIndex bk))).
              DIFFICULTY_RANK x \<le> DIFFICULTY_RANK (difficulty bk))
       \<and> (\<forall>j. orderIndex bk < j \<and> j < n \<longrightarrow> rankedKills (killsAt p ord j) = [])"
  using assms
proof (induction n)
  case 0
  then show ?case by simp
next
  case (Suc n)
  show ?case
  proof (cases "hardestDifficulty None (killsAt p ord n)")
    case None
    then have e: "rankedKills (killsAt p ord n) = []" by (simp add: hardest_none)
    from None Suc.prems have "scanEncounterOrder (encounters p) ord names n = Some bk"
      by (simp only: scan_step option.case)
    from Suc.IH [OF this] e show ?thesis
      by (auto simp: less_Suc_eq)
  next
    case (Some h)
    with Suc.prems have bk: "bk = \<lparr> bossId = ord ! n, bossName = bossNameOf names (ord ! n),
                           difficulty = h, orderIndex = n \<rparr>"
      by (simp only: scan_step option.case) simp
    from hardest_max [OF Some] bk show ?thesis by auto
  qed
qed

lemma killsAt_no_encounters: "encounters p = [] \<Longrightarrow> killsAt p ord i = []"
  by (simp add: killsAt_def)

text \<open>
  C3, as the code has it. \<^verbatim>\<open>computeBestBossKill\<close> returns the encounter of the greatest
  index of \<^verbatim>\<open>encounterOrder\<close> that has a kill of a difficulty known to
  \<^verbatim>\<open>DIFFICULTY_MAP\<close> (codes 3, 4, 5), with the difficulty of greatest rank among these
  kills, the order index and the boss name; encounters whose kills all carry other
  codes are passed over like encounters without kills. It returns null exactly when
  no index of the order has such a kill. For kills at index 2 (Heroic) and index 5
  (Normal and Mythic) and an order of length 8, the result is index 5 at Mythic.
\<close>

theorem computeBestBossKill_deepest:
  "(computeBestBossKill p ord names = None
      \<longleftrightarrow> (\<forall>i<length ord. rankedKills (killsAt p ord i) = []))
   \<and> (\<forall>bk. computeBestBossKill p ord names = Some bk \<longrightarrow>
         orderIndex bk < length ord \<and> bossId bk = ord ! orderIndex bk
       \<and> bossName bk = bossNameOf names (bossId bk)
       \<and> difficulty bk \<in> set (rankedKills (killsAt p ord (orderIndex bk)))
       \<and> (\<forall>x \<in> set (rankedKills (killsAt p ord (orderIndex bk))).
              DIFFICULTY_RANK x \<le> DIFFICULTY_RANK (difficulty bk))
       \<and> (\<forall>j. orderIndex bk < j \<and> j < length ord \<longrightarrow> rankedKills (killsAt p ord j) = []))
   \<and> computeBestBossKill sample_progression sample_order sample_names
       = Some \<lparr> bossId = 106, bossName = ''Sixth'', difficulty = Mythic, orderIndex = 5 \<rparr>"
proof -
  have a: "computeBestBossKill p ord names = None
      \<longleftrightarrow> (\<forall>i<length ord. rankedKills (killsAt p ord i) = [])"
  proof (cases "encounters p = []")
    case True
    then show ?thesis
      by (simp add: computeBestBossKill_def killsAt_no_encounters rankedKills_def List.map_filter_def)
  next
    case False
    then show ?thesis by (simp add: computeBestBossKill_def scan_none)
  qed
  have b: "computeBestBossKill p ord names = Some bk \<longrightarrow>
         orderIndex bk < length ord \<and> bossId bk = ord ! orderIndex bk
       \<and> bossName bk = bossNameOf names (bossId bk)
       \<and> difficulty bk \<in> set (rankedKills (killsAt p ord (orderIndex bk)))
       \<and> (\<forall>x \<in> set (rankedKills (killsAt p ord (orderIndex bk))).
              DIFFICULTY_RANK x \<le> DIFFICULTY_RANK (difficulty bk))
       \<and> (\<forall>j. orderIndex bk < j \<and> j < length ord \<longrightarrow> rankedKills (killsAt p ord j) = [])" for bk
  proof
    assume h: "computeBestBossKill p ord names = Some bk"
    then have "scanEncounterOrder (encounters p) ord names (length ord) = Some bk"
      by (simp add: computeBestBossKill_def split: if_splits)
    then show "orderIndex bk < length ord \<and> bossId bk = ord ! orderIndex bk
       \<and> bossName bk = bossNameOf names (bossId bk)
       \<and> difficulty bk \<in> set (rankedKills (killsAt p ord (orderIndex bk)))
       \<and> (\<forall>x \<in> set (rankedKills (killsAt p ord (orderIndex bk))).
              DIFFICULTY_RANK x \<le> DIFFICULTY_RANK (difficulty bk))
       \<and> (\<forall>j. orderIndex bk < j \<and> j < length ord \<longrightarrow> rankedKills (killsAt p ord j) = [])"
      by (rule scan_some)
  qed
  have c: "computeBestBossKill sample_progression sample_order sample_names
       = Some \<lparr> bossId = 106, bossName = ''Sixth'', difficulty = Mythic, orderIndex = 5 \<rparr>"
    by code_simp
  from a b c show ?thesis by blast
qed

lemma lfr_result: "computeBestBossKill lfr_progression [101, 102] []
     = Some \<lparr> bossId = 101, bossName = ''Boss 101'', difficulty = Heroic, orderIndex = 0 \<rparr>"
  by code_simp

theorem computeBestBossKill_deepest_witness:
  "computeBestBossKill lfr_progression [101, 102] []
     = Some \<lparr> bossId = 101, bossName = ''Boss 101'', difficulty = Heroic, orderIndex = 0 \<rparr>
   \<and> Heroic \<in> set (rankedKills (killsAt lfr_progression [101, 102] 0))
   \<and> rankedKills (killsAt lfr_progression [101, 102] 1) = []"
proof -
  have "(1::nat) < length [101, 102 :: int]" by simp
  with computeBestBossKill_deepest [of lfr_progression "[101, 102]" "[]"] lfr_result
  show ?thesis by auto
qed

text \<open>
  The claim as the specification words it fails where the deepest encounter with a
  recorded kill has kills of an unranked difficulty only (code 1 here): that
  encounter, at index 1, is passed over and the encounter at index 0 is returned.
\<close>

theorem computeBestBossKill_unranked_counterexample:
  "killsAt lfr_progression [101, 102] 1 = [mkKill 1]
   \<and> computeBestBossKill lfr_progression [101, 102] []
     = Some \<lparr> bossId = 101, bossName = ''Boss 101'', difficulty = Heroic, orderIndex = 0 \<rparr>"
  by code_simp

subsection \<open>Response normalisation\<close>

lemma specCounts_fold:
  "foldl (\<lambda>m ranking. if truthyStr (rk_spec ranking) then countSpec m (the (rk_spec ranking)) else m)
      m rankings
   = foldl countSpec m (countedSpecs rankings)"
  by (induction rankings arbitrary: m) (simp_all add: countedSpecs_def)

lemma countSpec_keys:
  "map fst (countSpec m s) = (if s \<in> set (map fst m) then map fst m else map fst m @ [s])"
  by (induction m s rule: countSpec.induct) auto

lemma countSpec_map_of:
  "map_of (countSpec m s) k =
     (if k = s then Some (case map_of m s of None \<Rightarrow> 1 | Some c \<Rightarrow> c + 1) else map_of m k)"
  by (induction m s rule: countSpec.induct) auto

lemma firstSeen_append_in: "a \<in> set xs \<Longrightarrow> firstSeen (xs @ ys) a = firstSeen xs a"
  by (simp add: firstSeen_def takeWhile_append1)

lemma firstSeen_less: "a \<in> set xs \<Longrightarrow> firstSeen xs a < length xs"
  unfolding firstSeen_def by (induction xs) auto

lemma firstSeen_new: "a \<notin> set xs \<Longrightarrow> firstSeen (xs @ [a]) a = length xs"
  unfolding firstSeen_def by (induction xs) auto

lemma count_list_snoc: "count_list (xs @ [x]) k = count_list xs k + (if x = k then 1 else 0)"
  by (induction xs) auto

lemma count_list_pos: "k \<in> set xs \<Longrightarrow> 0 < count_list xs k"
  by (induction xs) auto

lemma count_list_zero: "k \<notin> set xs \<Longrightarrow> count_list xs k = 0"
  by (induction xs) auto

lemma counts_invariant:
  "distinct (map fst (foldl countSpec [] xs))
   \<and> set (map fst (foldl countSpec [] xs)) = set xs
   \<and> (\<forall>k. map_of (foldl countSpec [] xs) k
            = (if k \<in> set xs then Some (count_list xs k) else None))
   \<and> sorted_wrt (\<lambda>a b. firstSeen xs a < firstSeen xs b) (map fst (foldl countSpec [] xs))"
proof (induction xs rule: rev_induct)
  case Nil
  then show ?case by simp
next
  case (snoc x xs)
  define m where "m = foldl countSpec [] xs"
  from snoc have d: "distinct (map fst m)" and ks: "set (map fst m) = set xs"
    and mo: "\<And>k. map_of m k = (if k \<in> set xs then Some (count_list xs k) else None)"
    and so: "sorted_wrt (\<lambda>a b. firstSeen xs a < firstSeen xs b) (map fst m)"
    by (simp_all add: m_def)
  have step: "foldl countSpec [] (xs @ [x]) = countSpec m x" by (simp add: m_def)
  have so': "sorted_wrt (\<lambda>a b. firstSeen (xs @ [x]) a < firstSeen (xs @ [x]) b) (map fst m)"
    using so ks by (auto intro!: sorted_wrt_mono_rel [OF _ so] simp: firstSeen_append_in)
  have 1: "distinct (map fst (countSpec m x))"
    using d ks by (simp add: countSpec_keys)
  have 2: "set (map fst (countSpec m x)) = set (xs @ [x])"
    using ks by (auto simp: countSpec_keys)
  have 3: "map_of (countSpec m x) k
            = (if k \<in> set (xs @ [x]) then Some (count_list (xs @ [x]) k) else None)" for k
    by (auto simp: countSpec_map_of mo count_list_snoc count_list_zero)
  have 4: "sorted_wrt (\<lambda>a b. firstSeen (xs @ [x]) a < firstSeen (xs @ [x]) b)
             (map fst (countSpec m x))"
  proof (cases "x \<in> set xs")
    case True
    then show ?thesis using so' ks by (simp add: countSpec_keys)
  next
    case False
    have "\<forall>a \<in> set xs. firstSeen (xs @ [x]) a < firstSeen (xs @ [x]) x"
      using False by (auto simp: firstSeen_append_in firstSeen_new firstSeen_less)
    then show ?thesis using so' ks False
      by (simp add: countSpec_keys sorted_wrt_append)
  qed
  from 1 2 3 4 show ?case unfolding step by blast
qed

lemma pickMostPlayed_spec:
  "(pickMostPlayed b mx m = b \<and> (\<forall>(k, c) \<in> set m. c \<le> mx))
   \<or> (\<exists>pre s c post. m = pre @ (s, c) # post \<and> pickMostPlayed b mx m = Some s \<and> mx < c
        \<and> (\<forall>(k, c') \<in> set pre. c' < c) \<and> (\<forall>(k, c') \<in> set post. c' \<le> c))"
proof (induction m arbitrary: b mx)
  case Nil
  then show ?case by simp
next
  case (Cons kc m)
  obtain k c0 where kc: "kc = (k, c0)" by (cases kc)
  show ?case
  proof (cases "c0 > mx")
    case True
    from Cons.IH [of "Some k" c0] show ?thesis
    proof
      assume "pickMostPlayed (Some k) c0 m = Some k \<and> (\<forall>(k, c) \<in> set m. c \<le> c0)"
      then have "kc # m = [] @ (k, c0) # m \<and> pickMostPlayed b mx (kc # m) = Some k \<and> mx < c0
        \<and> (\<forall>(k, c') \<in> set []. c' < c0) \<and> (\<forall>(k, c') \<in> set m. c' \<le> c0)"
        using True kc by simp
      then show ?thesis by blast
    next
      assume "\<exists>pre s c post. m = pre @ (s, c) # post \<and> pickMostPlayed (Some k) c0 m = Some s
        \<and> c0 < c \<and> (\<forall>(k, c') \<in> set pre. c' < c) \<and> (\<forall>(k, c') \<in> set post. c' \<le> c)"
      then obtain pre s c post where h: "m = pre @ (s, c) # post"
        "pickMostPlayed (Some k) c0 m = Some s" "c0 < c"
        "\<forall>(k, c') \<in> set pre. c' < c" "\<forall>(k, c') \<in> set post. c' \<le> c"
        by blast
      then have "kc # m = (kc # pre) @ (s, c) # post \<and> pickMostPlayed b mx (kc # m) = Some s
        \<and> mx < c \<and> (\<forall>(k, c') \<in> set (kc # pre). c' < c) \<and> (\<forall>(k, c') \<in> set post. c' \<le> c)"
        using True kc by simp
      then show ?thesis by blast
    qed
  next
    case False
    from Cons.IH [of b mx] show ?thesis
    proof
      assume "pickMostPlayed b mx m = b \<and> (\<forall>(k, c) \<in> set m. c \<le> mx)"
      then show ?thesis using False kc by simp
    next
      assume "\<exists>pre s c post. m = pre @ (s, c) # post \<and> pickMostPlayed b mx m = Some s
        \<and> mx < c \<and> (\<forall>(k, c') \<in> set pre. c' < c) \<and> (\<forall>(k, c') \<in> set post. c' \<le> c)"
      then obtain pre s c post where h: "m = pre @ (s, c) # post"
        "pickMostPlayed b mx m = Some s" "mx < c"
        "\<forall>(k, c') \<in> set pre. c' < c" "\<forall>(k, c') \<in> set post. c' \<le> c"
        by blast
      then have "kc # m = (kc # pre) @ (s, c) # post \<and> pickMostPlayed b mx (kc # m) = Some s
        \<and> mx < c \<and> (\<forall>(k, c') \<in> set (kc # pre). c' < c) \<and> (\<forall>(k, c') \<in> set post. c' \<le> c)"
        using False kc by simp
      then show ?thesis by blast
    qed
  qed
qed

lemma mostPlayed_spec:
  fixes rankings :: "ZoneRanking list"
  defines "specs \<equiv> countedSpecs rankings"
    and "r \<equiv> pickMostPlayed None 0 (specCounts rankings)"
  shows "(r = None \<longleftrightarrow> specs = [])
     \<and> (\<forall>s. r = Some s \<longrightarrow> s \<in> set specs
            \<and> (\<forall>t. count_list specs t \<le> count_list specs s)
            \<and> (\<forall>t. t \<noteq> s \<and> count_list specs t = count_list specs s
                    \<longrightarrow> firstSeen specs s < firstSeen specs t))"
proof -
  define m where "m = foldl countSpec [] specs"
  have r: "r = pickMostPlayed None 0 m"
    by (simp add: r_def m_def specs_def specCounts_def specCounts_fold)
  from counts_invariant [of specs]
  have d: "distinct (map fst m)" and ks: "set (map fst m) = set specs"
    and mo: "\<And>k. map_of m k = (if k \<in> set specs then Some (count_list specs k) else None)"
    and so: "sorted_wrt (\<lambda>a b. firstSeen specs a < firstSeen specs b) (map fst m)"
    by (simp_all add: m_def)
  have mem: "(k, c) \<in> set m \<longleftrightarrow> k \<in> set specs \<and> c = count_list specs k" for k c
  proof -
    have "(k, c) \<in> set m \<longleftrightarrow> map_of m k = Some c"
      using d by simp
    then show ?thesis by (auto simp: mo)
  qed
  from pickMostPlayed_spec [of None 0 m] show ?thesis
  proof
    assume h: "pickMostPlayed None 0 m = None \<and> (\<forall>(k, c) \<in> set m. c \<le> 0)"
    have "specs = []"
    proof (rule ccontr)
      assume "specs \<noteq> []"
      then obtain k where k: "k \<in> set specs" by (cases specs) auto
      then have "(k, count_list specs k) \<in> set m" by (simp add: mem)
      with h have "count_list specs k \<le> 0" by blast
      with count_list_pos [OF k] show False by simp
    qed
    with h r show ?thesis by simp
  next
    assume "\<exists>pre s c post. m = pre @ (s, c) # post \<and> pickMostPlayed None 0 m = Some s \<and> 0 < c
        \<and> (\<forall>(k, c') \<in> set pre. c' < c) \<and> (\<forall>(k, c') \<in> set post. c' \<le> c)"
    then obtain pre s c post where h: "m = pre @ (s, c) # post"
      "pickMostPlayed None 0 m = Some s" "0 < c"
      "\<forall>(k, c') \<in> set pre. c' < c" "\<forall>(k, c') \<in> set post. c' \<le> c"
      by blast
    from h(1) have "(s, c) \<in> set m" by simp
    then have s: "s \<in> set specs" and c: "c = count_list specs s" by (simp_all add: mem)
    have le: "count_list specs t \<le> count_list specs s" for t
    proof (cases "t \<in> set specs")
      case True
      then have "(t, count_list specs t) \<in> set m" by (simp add: mem)
      then have "(t, count_list specs t) \<in> set pre \<or> (t, count_list specs t) = (s, c)
          \<or> (t, count_list specs t) \<in> set post"
        using h(1) by auto
      then show ?thesis using h(4,5) c by auto
    next
      case False
      then show ?thesis by (simp add: count_list_zero)
    qed
    have tie: "firstSeen specs s < firstSeen specs t"
      if t: "t \<noteq> s" "count_list specs t = count_list specs s" for t
    proof -
      from t(2) h(3) c have "0 < count_list specs t" by simp
      then have "t \<in> set specs" using count_list_zero [of t specs] by fastforce
      then have "(t, c) \<in> set m" using t(2) c by (simp add: mem)
      then have "(t, c) \<in> set pre \<or> (t, c) = (s, c) \<or> (t, c) \<in> set post"
        using h(1) by auto
      then have "(t, c) \<in> set post" using h(4) t(1) by auto
      then have "t \<in> set (map fst post)" by force
      moreover have "sorted_wrt (\<lambda>a b. firstSeen specs a < firstSeen specs b)
          (map fst pre @ s # map fst post)"
        using so h(1) by simp
      ultimately show ?thesis by (auto simp: sorted_wrt_append)
    qed
    have "specs \<noteq> []" using s by auto
    with h(2) r s le tie show ?thesis by auto
  qed
qed

lemma rated_percentile: "truthyNum (rk_rankPercent q) \<Longrightarrow> rk_rankPercent q = Some (percentile q)"
  by (auto simp: truthyNum_def percentile_def split: option.splits)

lemma pickBestKill_from:
  assumes "truthyNum (rk_rankPercent r0)"
  shows "\<exists>r. pickBestKill (Some r0) rs = Some r \<and> truthyNum (rk_rankPercent r)
     \<and> ((r = r0 \<and> (\<forall>q \<in> set (rated rs). percentile q \<le> percentile r0))
        \<or> (\<exists>pre post. rated rs = pre @ r # post \<and> percentile r0 < percentile r
              \<and> (\<forall>q \<in> set pre. percentile q < percentile r)
              \<and> (\<forall>q \<in> set post. percentile q \<le> percentile r)))"
  using assms
proof (induction rs arbitrary: r0)
  case Nil
  then show ?case by (simp add: rated_def)
next
  case (Cons q rs)
  note r0 = rated_percentile [OF Cons.prems]
  show ?case
  proof (cases "truthyNum (rk_rankPercent q)")
    case False
    then have step: "pickBestKill (Some r0) (q # rs) = pickBestKill (Some r0) rs"
      and rt: "rated (q # rs) = rated rs"
      by (simp_all add: rated_def)
    from Cons.IH [OF Cons.prems] show ?thesis unfolding step rt .
  next
    case True
    note q = rated_percentile [OF True]
    show ?thesis
    proof (cases "percentile q > percentile r0")
      case False
      then have step: "pickBestKill (Some r0) (q # rs) = pickBestKill (Some r0) rs"
        using True r0 q by simp
      have rt: "rated (q # rs) = q # rated rs" using True by (simp add: rated_def)
      from Cons.IH [OF Cons.prems] obtain r where
        r: "pickBestKill (Some r0) rs = Some r" "truthyNum (rk_rankPercent r)"
        and alt: "(r = r0 \<and> (\<forall>q \<in> set (rated rs). percentile q \<le> percentile r0))
        \<or> (\<exists>pre post. rated rs = pre @ r # post \<and> percentile r0 < percentile r
              \<and> (\<forall>q \<in> set pre. percentile q < percentile r)
              \<and> (\<forall>q \<in> set post. percentile q \<le> percentile r))"
        by blast
      from alt show ?thesis
      proof
        assume "r = r0 \<and> (\<forall>q \<in> set (rated rs). percentile q \<le> percentile r0)"
        then have "r = r0 \<and> (\<forall>x \<in> set (q # rated rs). percentile x \<le> percentile r0)"
          using False by auto
        then show ?thesis using r unfolding step rt by blast
      next
        assume "\<exists>pre post. rated rs = pre @ r # post \<and> percentile r0 < percentile r
              \<and> (\<forall>q \<in> set pre. percentile q < percentile r)
              \<and> (\<forall>q \<in> set post. percentile q \<le> percentile r)"
        then obtain pre post where d: "rated rs = pre @ r # post" "percentile r0 < percentile r"
          "\<forall>q \<in> set pre. percentile q < percentile r" "\<forall>q \<in> set post. percentile q \<le> percentile r"
          by blast
        then have "rated (q # rs) = (q # pre) @ r # post \<and> percentile r0 < percentile r
              \<and> (\<forall>x \<in> set (q # pre). percentile x < percentile r)
              \<and> (\<forall>x \<in> set post. percentile x \<le> percentile r)"
          using False by (auto simp: rt)
        then show ?thesis using r unfolding step by blast
      qed
    next
      case gt: True
      then have step: "pickBestKill (Some r0) (q # rs) = pickBestKill (Some q) rs"
        using True r0 q by simp
      have rt: "rated (q # rs) = q # rated rs" using True by (simp add: rated_def)
      from Cons.IH [OF True] obtain r where
        r: "pickBestKill (Some q) rs = Some r" "truthyNum (rk_rankPercent r)"
        and alt: "(r = q \<and> (\<forall>x \<in> set (rated rs). percentile x \<le> percentile q))
        \<or> (\<exists>pre post. rated rs = pre @ r # post \<and> percentile q < percentile r
              \<and> (\<forall>x \<in> set pre. percentile x < percentile r)
              \<and> (\<forall>x \<in> set post. percentile x \<le> percentile r))"
        by blast
      from alt show ?thesis
      proof
        assume a: "r = q \<and> (\<forall>x \<in> set (rated rs). percentile x \<le> percentile q)"
        then have "rated (q # rs) = [] @ r # rated rs \<and> percentile r0 < percentile r
              \<and> (\<forall>x \<in> set []. percentile x < percentile r)
              \<and> (\<forall>x \<in> set (rated rs). percentile x \<le> percentile r)"
          using gt by (simp add: rt)
        then show ?thesis using r unfolding step by blast
      next
        assume "\<exists>pre post. rated rs = pre @ r # post \<and> percentile q < percentile r
              \<and> (\<forall>x \<in> set pre. percentile x < percentile r)
              \<and> (\<forall>x \<in> set post. percentile x \<le> percentile r)"
        then obtain pre post where d: "rated rs = pre @ r # post" "percentile q < percentile r"
          "\<forall>x \<in> set pre. percentile x < percentile r" "\<forall>x \<in> set post. percentile x \<le> percentile r"
          by blast
        then have "rated (q # rs) = (q # pre) @ r # post \<and> percentile r0 < percentile r
              \<and> (\<forall>x \<in> set (q # pre). percentile x < percentile r)
              \<and> (\<forall>x \<in> set post. percentile x \<le> percentile r)"
          using gt by (auto simp: rt)
        then show ?thesis using r unfolding step by blast
      qed
    qed
  qed
qed

lemma pickBestKill_spec:
  "(pickBestKill None rs = None \<longleftrightarrow> rated rs = [])
   \<and> (\<forall>r. pickBestKill None rs = Some r \<longrightarrow>
         (\<exists>pre post. rated rs = pre @ r # post
            \<and> (\<forall>q \<in> set pre. percentile q < percentile r)
            \<and> (\<forall>q \<in> set post. percentile q \<le> percentile r)))"
proof (induction rs)
  case Nil
  then show ?case by (simp add: rated_def)
next
  case (Cons q rs)
  show ?case
  proof (cases "truthyNum (rk_rankPercent q)")
    case False
    then have "pickBestKill None (q # rs) = pickBestKill None rs" "rated (q # rs) = rated rs"
      by (simp_all add: rated_def)
    with Cons.IH show ?thesis by simp
  next
    case True
    then have step: "pickBestKill None (q # rs) = pickBestKill (Some q) rs"
      and rt: "rated (q # rs) = q # rated rs"
      by (simp_all add: rated_def)
    from pickBestKill_from [OF True, of rs] obtain r where
      r: "pickBestKill (Some q) rs = Some r"
      and alt: "(r = q \<and> (\<forall>x \<in> set (rated rs). percentile x \<le> percentile q))
        \<or> (\<exists>pre post. rated rs = pre @ r # post \<and> percentile q < percentile r
              \<and> (\<forall>x \<in> set pre. percentile x < percentile r)
              \<and> (\<forall>x \<in> set post. percentile x \<le> percentile r))"
      by blast
    have "\<exists>pre post. rated (q # rs) = pre @ r # post
            \<and> (\<forall>x \<in> set pre. percentile x < percentile r)
            \<and> (\<forall>x \<in> set post. percentile x \<le> percentile r)"
      using alt
    proof
      assume "r = q \<and> (\<forall>x \<in> set (rated rs). percentile x \<le> percentile q)"
      then have "rated (q # rs) = [] @ r # rated rs
            \<and> (\<forall>x \<in> set []. percentile x < percentile r)
            \<and> (\<forall>x \<in> set (rated rs). percentile x \<le> percentile r)"
        by (simp add: rt)
      then show ?thesis by blast
    next
      assume "\<exists>pre post. rated rs = pre @ r # post \<and> percentile q < percentile r
              \<and> (\<forall>x \<in> set pre. percentile x < percentile r)
              \<and> (\<forall>x \<in> set post. percentile x \<le> percentile r)"
      then obtain pre post where d: "rated rs = pre @ r # post" "percentile q < percentile r"
          "\<forall>x \<in> set pre. percentile x < percentile r" "\<forall>x \<in> set post. percentile x \<le> percentile r"
        by blast
      then have "rated (q # rs) = (q # pre) @ r # post
            \<and> (\<forall>x \<in> set (q # pre). percentile x < percentile r)
            \<and> (\<forall>x \<in> set post. percentile x \<le> percentile r)"
        by (auto simp: rt)
      then show ?thesis by blast
    qed
    then show ?thesis using r unfolding step by (auto simp: rt)
  qed
qed

text \<open>
  C5, as the code has it. The normalisation joins the rankings arrays of the zones into
  one list, in order. The class name is the entry of the Class Name Table for the
  class index. The most played spec is the non-empty spec value with the highest
  number of occurrences in that list, the one seen first among those with the highest
  number, and null when no entry has a spec. The best kill is taken among the entries
  whose rank percentile is present and not zero: it is the first of them that reaches
  the highest percentile (every earlier one is strictly below it), and null when there
  is no such entry.
\<close>

theorem parseWarcraftLogsResponse_normalisation:
  "wcl_class (parseWarcraftLogsResponse ch) = Some (getWCLClassName (wc_classID ch))
   \<and> wcl_mostPlayedSpec (parseWarcraftLogsResponse ch) = wcl_spec (parseWarcraftLogsResponse ch)
   \<and> (wcl_spec (parseWarcraftLogsResponse ch) = None
        \<longleftrightarrow> countedSpecs (allRankings (wc_zoneRankings ch)) = [])
   \<and> (\<forall>s. wcl_spec (parseWarcraftLogsResponse ch) = Some s \<longrightarrow>
          s \<in> set (countedSpecs (allRankings (wc_zoneRankings ch)))
        \<and> (\<forall>t. count_list (countedSpecs (allRankings (wc_zoneRankings ch))) t
                  \<le> count_list (countedSpecs (allRankings (wc_zoneRankings ch))) s)
        \<and> (\<forall>t. t \<noteq> s \<and> count_list (countedSpecs (allRankings (wc_zoneRankings ch))) t
                        = count_list (countedSpecs (allRankings (wc_zoneRankings ch))) s
               \<longrightarrow> firstSeen (countedSpecs (allRankings (wc_zoneRankings ch))) s
                     < firstSeen (countedSpecs (allRankings (wc_zoneRankings ch))) t))
   \<and> (wcl_bestKillLatestSeason (parseWarcraftLogsResponse ch) = None
        \<longleftrightarrow> rated (allRankings (wc_zoneRankings ch)) = [])
   \<and> (\<forall>k. wcl_bestKillLatestSeason (parseWarcraftLogsResponse ch) = Some k \<longrightarrow>
          (\<exists>pre r post. rated (allRankings (wc_zoneRankings ch)) = pre @ r # post
             \<and> k = killSummary r
             \<and> (\<forall>q \<in> set pre. percentile q < percentile r)
             \<and> (\<forall>q \<in> set post. percentile q \<le> percentile r)))"
proof -
  define rs where "rs = allRankings (wc_zoneRankings ch)"
  have sp: "wcl_spec (parseWarcraftLogsResponse ch) = pickMostPlayed None 0 (specCounts rs)"
    and mp: "wcl_mostPlayedSpec (parseWarcraftLogsResponse ch) = pickMostPlayed None 0 (specCounts rs)"
    and bk: "wcl_bestKillLatestSeason (parseWarcraftLogsResponse ch)
              = map_option killSummary (pickBestKill None rs)"
    and cl: "wcl_class (parseWarcraftLogsResponse ch) = Some (getWCLClassName (wc_classID ch))"
    by (simp_all add: parseWarcraftLogsResponse_def Let_def rs_def)
  note m = mostPlayed_spec [of rs]
  note b = pickBestKill_spec [of rs]
  have b1: "wcl_bestKillLatestSeason (parseWarcraftLogsResponse ch) = None \<longleftrightarrow> rated rs = []"
    using b by (simp add: bk)
  have b2: "\<exists>pre r post. rated rs = pre @ r # post \<and> k = killSummary r
             \<and> (\<forall>q \<in> set pre. percentile q < percentile r)
             \<and> (\<forall>q \<in> set post. percentile q \<le> percentile r)"
    if "wcl_bestKillLatestSeason (parseWarcraftLogsResponse ch) = Some k" for k
  proof -
    from that obtain r where r: "pickBestKill None rs = Some r" "k = killSummary r"
      by (auto simp: bk)
    with b show ?thesis by blast
  qed
  from cl mp sp m b1 b2 show ?thesis unfolding rs_def [symmetric] by simp
qed

lemma sample_rankings:
  "allRankings (wc_zoneRankings sample_character)
     = [mkRanking ''Outlaw'' 80 ''A'', mkRanking ''Subtlety'' 95 ''B'',
        mkRanking ''Subtlety'' 95 ''C'', mkRanking ''Outlaw'' 40 ''D'']"
  by (simp add: sample_character_def allRankings_def)

lemma sample_specs:
  "countedSpecs (allRankings (wc_zoneRankings sample_character))
     = [''Outlaw'', ''Subtlety'', ''Subtlety'', ''Outlaw'']"
  by (simp add: sample_rankings countedSpecs_def mkRanking_def truthyStr_def)

lemma sample_spec: "wcl_spec (parseWarcraftLogsResponse sample_character) = Some ''Outlaw''"
  by (simp add: parseWarcraftLogsResponse_def Let_def sample_rankings specCounts_def
        mkRanking_def truthyStr_def)

lemma sample_tie:
  "count_list (countedSpecs (allRankings (wc_zoneRankings sample_character))) ''Subtlety''
     = count_list (countedSpecs (allRankings (wc_zoneRankings sample_character))) ''Outlaw''"
  by (simp add: sample_specs)

theorem parseWarcraftLogsResponse_normalisation_witness:
  "wcl_spec (parseWarcraftLogsResponse sample_character) = Some ''Outlaw''
   \<and> count_list (countedSpecs (allRankings (wc_zoneRankings sample_character))) ''Subtlety''
     = count_list (countedSpecs (allRankings (wc_zoneRankings sample_character))) ''Outlaw''
   \<and> firstSeen (countedSpecs (allRankings (wc_zoneRankings sample_character))) ''Outlaw''
     < firstSeen (countedSpecs (allRankings (wc_zoneRankings sample_character))) ''Subtlety''
   \<and> wcl_class (parseWarcraftLogsResponse sample_character) = Some (getWCLClassName 8)"
proof -
  have ne: "''Subtlety'' \<noteq> ''Outlaw''" by simp
  have cid: "wc_classID sample_character = 8" by (simp add: sample_character_def)
  from parseWarcraftLogsResponse_normalisation [of sample_character]
  have "\<forall>s. wcl_spec (parseWarcraftLogsResponse sample_character) = Some s \<longrightarrow>
      (\<forall>t. t \<noteq> s \<and> count_list (countedSpecs (allRankings (wc_zoneRankings sample_character))) t
                        = count_list (countedSpecs (allRankings (wc_zoneRankings sample_character))) s
               \<longrightarrow> firstSeen (countedSpecs (allRankings (wc_zoneRankings sample_character))) s
                     < firstSeen (countedSpecs (allRankings (wc_zoneRankings sample_character))) t)"
    and "wcl_class (parseWarcraftLogsResponse sample_character)
           = Some (getWCLClassName (wc_classID sample_character))"
    by blast+
  with sample_spec sample_tie ne cid show ?thesis by simp
qed

text \<open>
  The claim as the specification words it fails on an entry whose rank percentile is
  zero: the test \<^verbatim>\<open>ranking.rankPercent && ...\<close> passes it over, so a response whose only
  entry has percentile 0 reports no best kill.
\<close>

theorem parseWarcraftLogsResponse_zero_counterexample:
  "allRankings (wc_zoneRankings zero_character) = [mkRanking ''Outlaw'' 0 ''A'']
   \<and> rk_rankPercent (mkRanking ''Outlaw'' 0 ''A'') = Some 0
   \<and> wcl_bestKillLatestSeason (parseWarcraftLogsResponse zero_character) = None"
  by (simp add: parseWarcraftLogsResponse_def Let_def zero_character_def allRankings_def
        mkRanking_def truthyNum_def)

subsection \<open>Cache upsert\<close>

lemma find_map_update:
  assumes "\<And>r. P r \<Longrightarrow> P (g r)"
  shows "find P (map (\<lambda>r. if P r then g r else r) t) = map_option g (find P t)"
  using assms by (induction t) auto


lemma rowMatches_applyUpdates: "rowMatches l r \<Longrightarrow> rowMatches l (applyUpdates now u r)"
  by (simp add: rowMatches_def applyUpdates_def)



lemma upsert_existing:
  assumes "findCachedCharacter table (lookupOf entry) = Some old"
  shows "upsertCacheEntry table now entry =
     (if noFields entry then (Some old, table)
      else (Some (applyUpdates now entry old),
            map (\<lambda>row. if rowMatches (lookupOf entry) row then applyUpdates now entry row else row) table))"
  using assms rowMatches_applyUpdates
  by (simp add: upsertCacheEntry_def updateCacheEntry_def findCachedCharacter_def Let_def find_map_update)





subsection \<open>Orchestrator\<close>

lemma sample_url_parse:
  "parseWarcraftLogsCharacterUrl plainURL (Str sample_url)
     = Inr (SlugUrl ''US'' ''area-52'' ''Testchar'' sample_url)"
  by code_simp

lemma sample_lookup_found: "findCachedCharacter [sample_row t] sample_lookup = Some (sample_row t)"
  by (simp add: findCachedCharacter_def rowMatches_def sample_lookup_def sample_row_def seasonKeyOr_def)

lemma sample_stale: "isCacheStale 0 (7 * hour_ms) (Some (sample_row 0)) CACHE_TTL_HOURS"
  by (simp add: isCacheStale_def hoursSinceUpdate_def newDate_def hour_ms_def sample_row_def
        CACHE_TTL_HOURS_def)

lemma sample_fresh: "\<not> isCacheStale 0 (5 * hour_ms) (Some (sample_row 0)) CACHE_TTL_HOURS"
  by (simp add: isCacheStale_def hoursSinceUpdate_def newDate_def hour_ms_def sample_row_def
        CACHE_TTL_HOURS_def)

lemma POST_slug:
  assumes "wcl_configured env" "db_available env"
    and "parseWarcraftLogsCharacterUrl (newURL env) (req_warcraftLogsUrl req) = Inr (SlugUrl rg rm nm orig)"
  shows "POST env table (Some req) =
     enrichSlug env table (case req_seasonKey req of None \<Rightarrow> ''latest'' | Some k \<Rightarrow> k)
       (req_forceRefresh req) (map_option config_updated_at (season_config env)) rg rm nm orig"
proof -
  have "req_warcraftLogsUrl req \<noteq> NotAString" "req_warcraftLogsUrl req \<noteq> Str []"
    using assms(3) by (auto simp: parseWarcraftLogsCharacterUrl_def)
  then show ?thesis using assms by (simp add: POST_def Let_def)
qed

text \<open>
  C9, as the code has it. A slug-form request that reaches the cache lookup (credentials
  set, database answering, \<^verbatim>\<open>forceRefresh\<close> not set) and finds an entry that
  \<^verbatim>\<open>isCacheStale\<close> does not hold stale at the threshold of 6 hours ends there: the table is
  left as it was and the answer is the success 200 with a card rebuilt from the cached
  row. The card takes \<^verbatim>\<open>warcraftLogsUrl\<close> from the request and
  \<^verbatim>\<open>seasonConfigUpdatedAt\<close> from the active season configuration (absent when there is none
  or its stamp is empty); name, realm, region, time of update, fetch status and error
  message (absent when empty) from the columns of the row; class, spec, class-spec and
  avatar from the stored card, an absent or empty text read as null; the best kill from
  the stored card.
\<close>

theorem POST_fresh_cache:
  assumes "wcl_configured env" and "db_available env"
    and "parseWarcraftLogsCharacterUrl (newURL env) (req_warcraftLogsUrl req) = Inr (SlugUrl rg rm nm orig)"
    and "\<not> req_forceRefresh req"
    and "findCachedCharacter table
           \<lparr> lk_region = rg, lk_realm = rm, lk_character_name = nm,
             lk_season_key = Some (case req_seasonKey req of None \<Rightarrow> ''latest'' | Some k \<Rightarrow> k) \<rparr>
         = Some cached"
    and "\<not> isCacheStale (utc_offset env) (clock env) (Some cached) CACHE_TTL_HOURS"
  shows "\<exists>card. POST env table (Some req)
            = (\<lparr> status = 200, success = True, message = Some ''Player card returned from cache'',
                 data = Some card \<rparr>, table)
     \<and> warcraftLogsUrl card = orig
     \<and> characterName card = character_name cached
     \<and> realm card = row_realm cached
     \<and> region card = row_region cached
     \<and> class_name card = (case player_card cached of None \<Rightarrow> None | Some pc \<Rightarrow> orNull (class_name pc))
     \<and> spec card = (case player_card cached of None \<Rightarrow> None | Some pc \<Rightarrow> orNull (spec pc))
     \<and> bestKillLatestSeason card
         = (case player_card cached of None \<Rightarrow> None | Some pc \<Rightarrow> bestKillLatestSeason pc)
     \<and> classSpec card = (case player_card cached of None \<Rightarrow> None | Some pc \<Rightarrow> orNull (classSpec pc))
     \<and> avatarUrl card = (case player_card cached of None \<Rightarrow> None | Some pc \<Rightarrow> orNull (avatarUrl pc))
     \<and> fetchStatus card = fetch_status cached
     \<and> errorMessage card = orNull (error_message cached)
     \<and> updatedAt card = updated_at cached
     \<and> seasonConfigUpdatedAt card = orNull (map_option config_updated_at (season_config env))"
proof -
  let ?card = "buildPlayerCardFromCache cached orig (map_option config_updated_at (season_config env))"
  have "POST env table (Some req)
          = (successResponse ?card (Some ''Player card returned from cache''), table)"
    unfolding POST_slug [OF assms(1,2,3)]
    using assms(4,5,6) by (simp add: enrichSlug_def Let_def)
  then have "POST env table (Some req)
            = (\<lparr> status = 200, success = True, message = Some ''Player card returned from cache'',
                 data = Some ?card \<rparr>, table)"
    by (simp add: successResponse_def HttpStatus_OK_def)
  moreover have "warcraftLogsUrl ?card = orig
     \<and> characterName ?card = character_name cached
     \<and> realm ?card = row_realm cached
     \<and> region ?card = row_region cached
     \<and> class_name ?card = (case player_card cached of None \<Rightarrow> None | Some pc \<Rightarrow> orNull (class_name pc))
     \<and> spec ?card = (case player_card cached of None \<Rightarrow> None | Some pc \<Rightarrow> orNull (spec pc))
     \<and> bestKillLatestSeason ?card
         = (case player_card cached of None \<Rightarrow> None | Some pc \<Rightarrow> bestKillLatestSeason pc)
     \<and> classSpec ?card = (case player_card cached of None \<Rightarrow> None | Some pc \<Rightarrow> orNull (classSpec pc))
     \<and> avatarUrl ?card = (case player_card cached of None \<Rightarrow> None | Some pc \<Rightarrow> orNull (avatarUrl pc))
     \<and> fetchStatus ?card = fetch_status cached
     \<and> errorMessage ?card = orNull (error_message cached)
     \<and> updatedAt ?card = updated_at cached
     \<and> seasonConfigUpdatedAt ?card = orNull (map_option config_updated_at (season_config env))"
    by (simp add: buildPlayerCardFromCache_def)
  ultimately show ?thesis by blast
qed

theorem POST_fresh_cache_witness:
  "\<exists>card. POST (sample_env True (5 * hour_ms)) [sample_row 0] (Some (sample_request False))
            = (\<lparr> status = 200, success = True, message = Some ''Player card returned from cache'',
                 data = Some card \<rparr>, [sample_row 0])
     \<and> warcraftLogsUrl card = sample_url
     \<and> characterName card = character_name (sample_row 0)
     \<and> realm card = row_realm (sample_row 0)
     \<and> updatedAt card = updated_at (sample_row 0)
     \<and> seasonConfigUpdatedAt card
         = orNull (map_option config_updated_at (season_config (sample_env True (5 * hour_ms))))"
proof -
  let ?env = "sample_env True (5 * hour_ms)"
  let ?req = "sample_request False"
  have e: "wcl_configured ?env" "db_available ?env" "clock ?env = 5 * hour_ms" "newURL ?env = plainURL"
    "utc_offset ?env = 0"
    by (simp_all add: sample_env_def)
  have r: "req_warcraftLogsUrl ?req = Str sample_url" "\<not> req_forceRefresh ?req"
    "req_seasonKey ?req = None"
    by (simp_all add: sample_request_def)
  have p: "parseWarcraftLogsCharacterUrl (newURL ?env) (req_warcraftLogsUrl ?req)
             = Inr (SlugUrl ''US'' ''area-52'' ''Testchar'' sample_url)"
    by (simp only: e r sample_url_parse)
  have f: "findCachedCharacter [sample_row 0]
           \<lparr> lk_region = ''US'', lk_realm = ''area-52'', lk_character_name = ''Testchar'',
             lk_season_key = Some (case req_seasonKey ?req of None \<Rightarrow> ''latest'' | Some k \<Rightarrow> k) \<rparr>
         = Some (sample_row 0)"
    using sample_lookup_found [of 0] by (simp add: r sample_lookup_def)
  have s: "\<not> isCacheStale (utc_offset ?env) (clock ?env) (Some (sample_row 0)) CACHE_TTL_HOURS"
    by (simp only: e sample_fresh not_False_eq_True)
  from POST_fresh_cache [OF e(1) e(2) p r(2) f s] show ?thesis by blast
qed

text \<open>
  The claim as the specification words it fails on the row a successful fetch leaves.
  The entry is found and is not stale, the request ends at the cache and writes nothing,
  but the card served is not the stored card with \<^verbatim>\<open>warcraftLogsUrl\<close> re-stamped: the realm
  is the key of the row and not the name the stored card carries, the empty class-spec
  text is served as null, and \<^verbatim>\<open>seasonConfigUpdatedAt\<close> is the stamp of the season
  configuration active now, not the one stored.
\<close>

theorem POST_fresh_cache_counterexample:
  "findCachedCharacter [stored_row] sample_lookup = Some stored_row
   \<and> \<not> isCacheStale (utc_offset (later_env True)) (clock (later_env True)) (Some stored_row)
         CACHE_TTL_HOURS
   \<and> POST (later_env True) [stored_row] (Some (sample_request False))
     = (\<lparr> status = 200, success = True, message = Some ''Player card returned from cache'',
          data = Some \<lparr> warcraftLogsUrl = sample_url,
                   characterName = ''Testchar'', realm = ''area-52'', region = ''US'',
                   class_name = Some ''Mage'', spec = Some ''Frost'', avatarUrl = None,
                   bestKillLatestSeason = None, classSpec = None, updatedAt = 0,
                   fetchStatus = Complete, errorMessage = None,
                   seasonConfigUpdatedAt = Some ''2025-03-01 12:00:00'' \<rparr> \<rparr>,
        [stored_row])
   \<and> stored_card \<lparr> warcraftLogsUrl := sample_url \<rparr>
     = \<lparr> warcraftLogsUrl = sample_url,
         characterName = ''Testchar'', realm = ''Area 52'', region = ''US'',
         class_name = Some ''Mage'', spec = Some ''Frost'', avatarUrl = None,
         bestKillLatestSeason = None, classSpec = Some [], updatedAt = 0,
         fetchStatus = Complete, errorMessage = None,
         seasonConfigUpdatedAt = Some ''2025-01-10 08:00:00'' \<rparr>"
proof -
  let ?env = "later_env True"
  let ?req = "sample_request False"
  have e: "wcl_configured ?env" "db_available ?env" "clock ?env = 5 * hour_ms" "newURL ?env = plainURL"
    "utc_offset ?env = 0" "season_config ?env = Some later_season"
    by (simp_all add: later_env_def)
  have r: "req_warcraftLogsUrl ?req = Str sample_url" "\<not> req_forceRefresh ?req"
    "req_seasonKey ?req = None"
    by (simp_all add: sample_request_def)
  have p: "parseWarcraftLogsCharacterUrl (newURL ?env) (req_warcraftLogsUrl ?req)
             = Inr (SlugUrl ''US'' ''area-52'' ''Testchar'' sample_url)"
    by (simp only: e r sample_url_parse)
  have f: "findCachedCharacter [stored_row] sample_lookup = Some stored_row"
    by (simp add: findCachedCharacter_def rowMatches_def sample_lookup_def stored_row_def
          seasonKeyOr_def)
  have f': "findCachedCharacter [stored_row]
           \<lparr> lk_region = ''US'', lk_realm = ''area-52'', lk_character_name = ''Testchar'',
             lk_season_key = Some ''latest'' \<rparr> = Some stored_row"
    using f by (simp add: sample_lookup_def)
  have s: "\<not> isCacheStale (utc_offset ?env) (clock ?env) (Some stored_row) CACHE_TTL_HOURS"
    by (simp add: e isCacheStale_def hoursSinceUpdate_def newDate_def hour_ms_def stored_row_def
          CACHE_TTL_HOURS_def)
  have c: "buildPlayerCardFromCache stored_row sample_url (Some ''2025-03-01 12:00:00'')
     = \<lparr> warcraftLogsUrl = sample_url,
         characterName = ''Testchar'', realm = ''area-52'', region = ''US'',
         class_name = Some ''Mage'', spec = Some ''Frost'', avatarUrl = None,
         bestKillLatestSeason = None, classSpec = None, updatedAt = 0,
         fetchStatus = Complete, errorMessage = None,
         seasonConfigUpdatedAt = Some ''2025-03-01 12:00:00'' \<rparr>"
    by (simp add: buildPlayerCardFromCache_def stored_row_def stored_card_def orNull_def)
  have "POST ?env [stored_row] (Some ?req)
          = (successResponse (buildPlayerCardFromCache stored_row sample_url
                                (Some ''2025-03-01 12:00:00''))
               (Some ''Player card returned from cache''), [stored_row])"
    unfolding POST_slug [OF e(1) e(2) p]
    using r f' s by (simp add: enrichSlug_def Let_def e later_season_def)
  then have a: "POST ?env [stored_row] (Some ?req)
     = (\<lparr> status = 200, success = True, message = Some ''Player card returned from cache'',
          data = Some \<lparr> warcraftLogsUrl = sample_url,
                   characterName = ''Testchar'', realm = ''area-52'', region = ''US'',
                   class_name = Some ''Mage'', spec = Some ''Frost'', avatarUrl = None,
                   bestKillLatestSeason = None, classSpec = None, updatedAt = 0,
                   fetchStatus = Complete, errorMessage = None,
                   seasonConfigUpdatedAt = Some ''2025-03-01 12:00:00'' \<rparr> \<rparr>,
        [stored_row])"
    by (simp add: c successResponse_def HttpStatus_OK_def)
  have b: "stored_card \<lparr> warcraftLogsUrl := sample_url \<rparr>
     = \<lparr> warcraftLogsUrl = sample_url,
         characterName = ''Testchar'', realm = ''Area 52'', region = ''US'',
         class_name = Some ''Mage'', spec = Some ''Frost'', avatarUrl = None,
         bestKillLatestSeason = None, classSpec = Some [], updatedAt = 0,
         fetchStatus = Complete, errorMessage = None,
         seasonConfigUpdatedAt = Some ''2025-01-10 08:00:00'' \<rparr>"
    by (simp add: stored_card_def)
  from f s a b show ?thesis by blast
qed

text \<open>
  Without credentials the same request, with the same fresh entry in the table, does
  not reach the cache: it is answered 503 by the check at the head of \<^verbatim>\<open>POST\<close>.
\<close>

lemma POST_unconfigured_fresh_cache:
  "POST (later_env False) [stored_row] (Some (sample_request False))
     = (\<lparr> status = 503, success = False, message = Some ''An unexpected error occurred'',
          data = None \<rparr>, [stored_row])"
  by (simp add: POST_def later_env_def errorResponse_def handleError_def
        HttpStatus_SERVICE_UNAVAILABLE_def)

text \<open>
  C1 at a concrete request. Without credentials, a slug-form request whose key has a
  cache entry is answered 503 by the check at the head of \<^verbatim>\<open>POST\<close>, with no card; the
  branch of the route that would answer it from the cache (\<open>enrichSlug\<close>, which returns
  the cached card with status 200 for the same input) is never reached.
\<close>

theorem POST_unconfigured_ignores_cache:
  "parseWarcraftLogsCharacterUrl plainURL (Str sample_url)
     = Inr (SlugUrl ''US'' ''area-52'' ''Testchar'' sample_url)
   \<and> findCachedCharacter [sample_row 0] sample_lookup = Some (sample_row 0)
   \<and> POST (sample_env False (7 * hour_ms)) [sample_row 0] (Some (sample_request False))
      = (\<lparr> status = 503, success = False, message = Some ''An unexpected error occurred'',
           data = None \<rparr>, [sample_row 0])
   \<and> status (fst (enrichSlug (sample_env False (7 * hour_ms)) [sample_row 0] ''latest'' False None
                     ''US'' ''area-52'' ''Testchar'' sample_url)) = 200"
proof -
  let ?env = "sample_env False (7 * hour_ms)"
  have e: "\<not> wcl_configured ?env" "clock ?env = 7 * hour_ms" "utc_offset ?env = 0"
    by (simp_all add: sample_env_def)
  have a: "POST ?env [sample_row 0] (Some (sample_request False))
      = (\<lparr> status = 503, success = False, message = Some ''An unexpected error occurred'',
           data = None \<rparr>, [sample_row 0])"
    using e(1)
    by (simp add: POST_def errorResponse_def handleError_def HttpStatus_SERVICE_UNAVAILABLE_def)
  have f: "findCachedCharacter [sample_row 0]
           \<lparr> lk_region = ''US'', lk_realm = ''area-52'', lk_character_name = ''Testchar'',
             lk_season_key = Some ''latest'' \<rparr> = Some (sample_row 0)"
    using sample_lookup_found [of 0] by (simp add: sample_lookup_def)
  have b: "status (fst (enrichSlug ?env [sample_row 0] ''latest'' False None
                     ''US'' ''area-52'' ''Testchar'' sample_url)) = 200"
    using e sample_stale
    by (simp add: enrichSlug_def f successResponse_def HttpStatus_OK_def)
  from sample_url_parse sample_lookup_found [of 0] a b show ?thesis by blast
qed


lemma fetch_failure_unclassified:
  assumes "fetchWarcraftLogsCharacter True t q = Inl e"
    and "errorCodeOf e \<noteq> ''WCL_OAUTH_FAILED''" "errorCodeOf e \<noteq> ''WCL_GRAPHQL_FAILED''"
    and "errorCodeOf e \<noteq> ''WCL_GRAPHQL_ERROR''" "errorCodeOf e \<noteq> ''WCL_CHARACTER_NOT_FOUND''"
  shows "\<not> str_includes (err_message e) ''not found''"
proof (cases t)
  case TokenGranted
  show ?thesis
  proof (cases q)
    case (QueryNetworkError m)
    with TokenGranted assms(1)
    have "err_message e = ''Network error connecting to Warcraft Logs API''"
      by (auto simp: fetchWarcraftLogsCharacter_def getWarcraftLogsToken_def)
    then show ?thesis by (simp add: startsWith_def)
  qed (use TokenGranted assms in
        \<open>auto simp: fetchWarcraftLogsCharacter_def getWarcraftLogsToken_def errorCodeOf_def\<close>)
next
  case (TokenHttpError st)
  with assms(1,2) show ?thesis
    by (auto simp: fetchWarcraftLogsCharacter_def getWarcraftLogsToken_def errorCodeOf_def)
next
  case TokenNetworkError
  with assms(1)
  have "err_message e = ''Network error connecting to Warcraft Logs OAuth''"
    by (auto simp: fetchWarcraftLogsCharacter_def getWarcraftLogsToken_def)
  then show ?thesis by (simp add: startsWith_def)
qed

lemma fetchErrorResponse_502:
  "status (fetchErrorResponse txt e) = 502 \<and> \<not> success (fetchErrorResponse txt e)
   \<and> data (fetchErrorResponse txt e) = None"
  by (simp add: fetchErrorResponse_def errorResponse_def handleError_def Let_def
        HttpStatus_BAD_GATEWAY_def)

lemma fetchErrorResponse_message:
  "message (fetchErrorResponse txt e) =
     Some (if errorCodeOf e = ''WCL_OAUTH_FAILED'' then ''Could not authenticate with Warcraft Logs''
           else if errorCodeOf e = ''WCL_GRAPHQL_FAILED'' \<or> errorCodeOf e = ''WCL_GRAPHQL_ERROR''
           then ''Warcraft Logs API request failed''
           else if errorCodeOf e = ''WCL_CHARACTER_NOT_FOUND'' \<or> str_includes (err_message e) ''not found''
           then txt
           else ''Warcraft Logs API error: '' @ err_message e)"
  by (simp add: fetchErrorResponse_def errorResponse_def handleError_def Let_def
        HttpStatus_BAD_GATEWAY_def)

lemma upsert_failed_existing:
  assumes "findCachedCharacter table
             \<lparr> lk_region = rg, lk_realm = rm, lk_character_name = nm, lk_season_key = Some sk \<rparr>
           = Some cached"
  shows "findCachedCharacter (snd (upsertCacheEntry table now (failedEntry rg rm nm sk msg)))
             \<lparr> lk_region = rg, lk_realm = rm, lk_character_name = nm, lk_season_key = Some sk \<rparr>
           = Some (cached \<lparr> fetch_status := Failed, error_message := Some msg, updated_at := now \<rparr>)"
proof -
  let ?d = "failedEntry rg rm nm sk msg"
  have l: "lookupOf ?d = \<lparr> lk_region = rg, lk_realm = rm, lk_character_name = nm, lk_season_key = Some sk \<rparr>"
    by (simp add: lookupOf_def failedEntry_def)
  have nf: "\<not> noFields ?d" by (simp add: noFields_def failedEntry_def)
  have a: "applyUpdates now ?d cached
             = cached \<lparr> fetch_status := Failed, error_message := Some msg, updated_at := now \<rparr>"
    by (simp add: applyUpdates_def failedEntry_def)
  from assms have old: "findCachedCharacter table (lookupOf ?d) = Some cached" by (simp only: l)
  have "snd (upsertCacheEntry table now ?d)
          = map (\<lambda>row. if rowMatches (lookupOf ?d) row then applyUpdates now ?d row else row) table"
    using upsert_existing [OF old, of now] nf by simp
  then have "findCachedCharacter (snd (upsertCacheEntry table now ?d)) (lookupOf ?d)
          = Some (applyUpdates now ?d cached)"
    using old rowMatches_applyUpdates
    by (simp add: findCachedCharacter_def find_map_update)
  then show ?thesis by (simp only: l a)
qed

text \<open>
  C2, as the code has it. The request is of slug form, the credentials are set and
  the upstream fetch fails with the error \<open>e\<close>. When the cache lookup of the request
  (which is skipped when \<^verbatim>\<open>forceRefresh\<close> is set) has returned an entry, stale at 6 hours,
  the entry is written back with fetch status failed, the error text and a new
  \<^verbatim>\<open>updated_at\<close>, and the answer is the success 200 with the card of the entry as it was
  read, annotated with the error message. When the lookup has returned nothing, the
  table is left as it was and the answer is an error 502 without a card, whose message
  follows the code of the error: authentication failed, request failed (for a failed
  request and for upstream errors), the hint to verify name, realm and region for a
  character not found, and the generic text with the error message otherwise.
\<close>

theorem POST_fetch_failure:
  assumes "wcl_configured env" and "db_available env"
    and "parseWarcraftLogsCharacterUrl (newURL env) (req_warcraftLogsUrl req) = Inr (SlugUrl rg rm nm orig)"
    and "fetchWarcraftLogsCharacter (wcl_configured env) (token env) (character_reply env) = Inl e"
  shows "(\<not> req_forceRefresh req
          \<and> findCachedCharacter table
               \<lparr> lk_region = rg, lk_realm = rm, lk_character_name = nm,
                 lk_season_key = Some (case req_seasonKey req of None \<Rightarrow> ''latest'' | Some k \<Rightarrow> k) \<rparr>
             = Some cached
          \<and> isCacheStale (utc_offset env) (clock env) (Some cached) CACHE_TTL_HOURS
        \<longrightarrow> fst (POST env table (Some req))
              = \<lparr> status = 200, success = True,
                  message = Some ''Returning cached data (fetch failed)'',
                  data = Some ((buildPlayerCardFromCache cached orig
                                  (map_option config_updated_at (season_config env)))
                               \<lparr> errorMessage := Some (''Failed to fetch fresh data: ''
                                     @ err_message e @ ''. Returning cached data.'') \<rparr>) \<rparr>
            \<and> findCachedCharacter (snd (POST env table (Some req)))
                 \<lparr> lk_region = rg, lk_realm = rm, lk_character_name = nm,
                   lk_season_key = Some (case req_seasonKey req of None \<Rightarrow> ''latest'' | Some k \<Rightarrow> k) \<rparr>
               = Some (cached \<lparr> fetch_status := Failed, error_message := Some (err_message e),
                                 updated_at := clock env \<rparr>))
     \<and> (req_forceRefresh req
          \<or> findCachedCharacter table
               \<lparr> lk_region = rg, lk_realm = rm, lk_character_name = nm,
                 lk_season_key = Some (case req_seasonKey req of None \<Rightarrow> ''latest'' | Some k \<Rightarrow> k) \<rparr>
             = None
        \<longrightarrow> snd (POST env table (Some req)) = table
            \<and> status (fst (POST env table (Some req))) = 502
            \<and> \<not> success (fst (POST env table (Some req)))
            \<and> data (fst (POST env table (Some req))) = None
            \<and> message (fst (POST env table (Some req)))
               = Some (if errorCodeOf e = ''WCL_OAUTH_FAILED''
                       then ''Could not authenticate with Warcraft Logs''
                       else if errorCodeOf e = ''WCL_GRAPHQL_FAILED'' \<or> errorCodeOf e = ''WCL_GRAPHQL_ERROR''
                       then ''Warcraft Logs API request failed''
                       else if errorCodeOf e = ''WCL_CHARACTER_NOT_FOUND'' then notFoundSlugText
                       else ''Warcraft Logs API error: '' @ err_message e))"
proof -
  let ?sk = "case req_seasonKey req of None \<Rightarrow> ''latest'' | Some k \<Rightarrow> k"
  let ?key = "\<lparr> lk_region = rg, lk_realm = rm, lk_character_name = nm, lk_season_key = Some ?sk \<rparr>"
  let ?scu = "map_option config_updated_at (season_config env)"
  note post = POST_slug [OF assms(1,2,3)]
  have A: "fst (POST env table (Some req))
              = \<lparr> status = 200, success = True,
                  message = Some ''Returning cached data (fetch failed)'',
                  data = Some ((buildPlayerCardFromCache cached orig ?scu)
                               \<lparr> errorMessage := Some (''Failed to fetch fresh data: ''
                                     @ err_message e @ ''. Returning cached data.'') \<rparr>) \<rparr>
            \<and> findCachedCharacter (snd (POST env table (Some req))) ?key
               = Some (cached \<lparr> fetch_status := Failed, error_message := Some (err_message e),
                                 updated_at := clock env \<rparr>)"
    if h: "\<not> req_forceRefresh req" "findCachedCharacter table ?key = Some cached"
      "isCacheStale (utc_offset env) (clock env) (Some cached) CACHE_TTL_HOURS"
  proof -
    have "POST env table (Some req)
        = (successResponse
             ((buildPlayerCardFromCache cached orig ?scu)
                \<lparr> errorMessage := Some (''Failed to fetch fresh data: ''
                      @ err_message e @ ''. Returning cached data.'') \<rparr>)
             (Some ''Returning cached data (fetch failed)''),
           snd (upsertCacheEntry table (clock env) (failedEntry rg rm nm ?sk (err_message e))))"
      unfolding post using h assms(1,4) by (simp add: enrichSlug_def Let_def)
    then show ?thesis
      using upsert_failed_existing [OF h(2), of "clock env" "err_message e"]
      by (simp add: successResponse_def HttpStatus_OK_def)
  qed
  have B: "snd (POST env table (Some req)) = table
            \<and> status (fst (POST env table (Some req))) = 502
            \<and> \<not> success (fst (POST env table (Some req)))
            \<and> data (fst (POST env table (Some req))) = None
            \<and> message (fst (POST env table (Some req)))
               = Some (if errorCodeOf e = ''WCL_OAUTH_FAILED''
                       then ''Could not authenticate with Warcraft Logs''
                       else if errorCodeOf e = ''WCL_GRAPHQL_FAILED'' \<or> errorCodeOf e = ''WCL_GRAPHQL_ERROR''
                       then ''Warcraft Logs API request failed''
                       else if errorCodeOf e = ''WCL_CHARACTER_NOT_FOUND'' then notFoundSlugText
                       else ''Warcraft Logs API error: '' @ err_message e)"
    if h: "req_forceRefresh req \<or> findCachedCharacter table ?key = None"
  proof -
    have p: "POST env table (Some req) = (fetchErrorResponse notFoundSlugText e, table)"
      unfolding post using h assms(1,4) by (auto simp: enrichSlug_def Let_def isCacheStale_def)
    have f: "fetchWarcraftLogsCharacter True (token env) (character_reply env) = Inl e"
      using assms(1,4) by simp
    have m: "message (fetchErrorResponse notFoundSlugText e)
        = Some (if errorCodeOf e = ''WCL_OAUTH_FAILED''
                       then ''Could not authenticate with Warcraft Logs''
                       else if errorCodeOf e = ''WCL_GRAPHQL_FAILED'' \<or> errorCodeOf e = ''WCL_GRAPHQL_ERROR''
                       then ''Warcraft Logs API request failed''
                       else if errorCodeOf e = ''WCL_CHARACTER_NOT_FOUND'' then notFoundSlugText
                       else ''Warcraft Logs API error: '' @ err_message e)"
      unfolding fetchErrorResponse_message
      using fetch_failure_unclassified [OF f] by (simp del: str_includes.simps)
    show ?thesis unfolding p using fetchErrorResponse_502 [of notFoundSlugText e] m by simp
  qed
  from A B show ?thesis by blast
qed

lemma sample_fetch_fails:
  "fetchWarcraftLogsCharacter (wcl_configured (sample_env True now)) (token (sample_env True now))
      (character_reply (sample_env True now))
     = Inl \<lparr> err_code = Some ''WCL_OAUTH_FAILED'', err_message = ''WCL OAuth failed: 401 Unauthorized'' \<rparr>"
  by (simp add: sample_env_def fetchWarcraftLogsCharacter_def getWarcraftLogsToken_def)

lemma sample_env_parse:
  "parseWarcraftLogsCharacterUrl (newURL (sample_env c now)) (req_warcraftLogsUrl (sample_request f))
     = Inr (SlugUrl ''US'' ''area-52'' ''Testchar'' sample_url)"
  by (simp add: sample_env_def sample_request_def sample_url_parse)

theorem POST_fetch_failure_witness:
  "fst (POST (sample_env True (7 * hour_ms)) [sample_row 0] (Some (sample_request False)))
     = \<lparr> status = 200, success = True, message = Some ''Returning cached data (fetch failed)'',
         data = Some ((buildPlayerCardFromCache (sample_row 0) sample_url None)
                      \<lparr> errorMessage := Some (''Failed to fetch fresh data: ''
                            @ ''WCL OAuth failed: 401 Unauthorized'' @ ''. Returning cached data.'') \<rparr>) \<rparr>
   \<and> findCachedCharacter
        (snd (POST (sample_env True (7 * hour_ms)) [sample_row 0] (Some (sample_request False))))
        sample_lookup
     = Some ((sample_row 0) \<lparr> fetch_status := Failed,
               error_message := Some ''WCL OAuth failed: 401 Unauthorized'',
               updated_at := 7 * hour_ms \<rparr>)
   \<and> status (fst (POST (sample_env True (7 * hour_ms)) [] (Some (sample_request False)))) = 502
   \<and> message (fst (POST (sample_env True (7 * hour_ms)) [] (Some (sample_request False))))
     = Some ''Could not authenticate with Warcraft Logs''"
proof -
  let ?env = "sample_env True (7 * hour_ms)"
  let ?req = "sample_request False"
  let ?e = "\<lparr> err_code = Some ''WCL_OAUTH_FAILED'', err_message = ''WCL OAuth failed: 401 Unauthorized'' \<rparr>"
  have e: "wcl_configured ?env" "db_available ?env" "clock ?env = 7 * hour_ms"
    "season_config ?env = None" "utc_offset ?env = 0"
    by (simp_all add: sample_env_def)
  have r: "\<not> req_forceRefresh ?req" "req_seasonKey ?req = None"
    by (simp_all add: sample_request_def)
  have k: "\<lparr> lk_region = ''US'', lk_realm = ''area-52'', lk_character_name = ''Testchar'',
             lk_season_key = Some (case req_seasonKey ?req of None \<Rightarrow> ''latest'' | Some k \<Rightarrow> k) \<rparr>
           = sample_lookup"
    by (simp add: r sample_lookup_def)
  have c: "errorCodeOf ?e = ''WCL_OAUTH_FAILED''" "err_message ?e = ''WCL OAuth failed: 401 Unauthorized''"
    by (simp_all add: errorCodeOf_def)
  have st: "isCacheStale (utc_offset ?env) (clock ?env) (Some (sample_row 0)) CACHE_TTL_HOURS"
    by (simp only: e sample_stale)
  have none: "findCachedCharacter [] sample_lookup = None"
    by (simp add: findCachedCharacter_def)
  note t1 = POST_fetch_failure [OF e(1) e(2) sample_env_parse sample_fetch_fails,
      of False "[sample_row 0]" "sample_row 0", unfolded k]
  note t2 = POST_fetch_failure [OF e(1) e(2) sample_env_parse sample_fetch_fails,
      of False "[]" "sample_row 0", unfolded k]
  from t1 r(1) sample_lookup_found [of 0] st
  have a: "fst (POST ?env [sample_row 0] (Some ?req))
            = \<lparr> status = 200, success = True, message = Some ''Returning cached data (fetch failed)'',
                data = Some ((buildPlayerCardFromCache (sample_row 0) sample_url
                               (map_option config_updated_at (season_config ?env)))
                             \<lparr> errorMessage := Some (''Failed to fetch fresh data: ''
                                   @ err_message ?e @ ''. Returning cached data.'') \<rparr>) \<rparr>
         \<and> findCachedCharacter (snd (POST ?env [sample_row 0] (Some ?req))) sample_lookup
            = Some ((sample_row 0) \<lparr> fetch_status := Failed, error_message := Some (err_message ?e),
                                       updated_at := clock ?env \<rparr>)"
    by blast
  from t2 none
  have b: "status (fst (POST ?env [] (Some ?req))) = 502
         \<and> message (fst (POST ?env [] (Some ?req)))
            = Some (if errorCodeOf ?e = ''WCL_OAUTH_FAILED''
                       then ''Could not authenticate with Warcraft Logs''
                       else if errorCodeOf ?e = ''WCL_GRAPHQL_FAILED'' \<or> errorCodeOf ?e = ''WCL_GRAPHQL_ERROR''
                       then ''Warcraft Logs API request failed''
                       else if errorCodeOf ?e = ''WCL_CHARACTER_NOT_FOUND'' then notFoundSlugText
                       else ''Warcraft Logs API error: '' @ err_message ?e)"
    by blast
  from a b show ?thesis by (simp add: c e)
qed

text \<open>
  The claim as the specification words it fails on a request with \<^verbatim>\<open>forceRefresh\<close>: the
  lookup is skipped, so although the table holds an entry for the key, a failed fetch
  is answered 502 and the entry is not written.
\<close>

theorem POST_forceRefresh_counterexample:
  "findCachedCharacter [sample_row 0] sample_lookup = Some (sample_row 0)
   \<and> fetchWarcraftLogsCharacter True (TokenHttpError ''401 Unauthorized'') QueryNoCharacter
     = Inl \<lparr> err_code = Some ''WCL_OAUTH_FAILED'', err_message = ''WCL OAuth failed: 401 Unauthorized'' \<rparr>
   \<and> POST (sample_env True (7 * hour_ms)) [sample_row 0] (Some (sample_request True))
     = (\<lparr> status = 502, success = False,
          message = Some ''Could not authenticate with Warcraft Logs'', data = None \<rparr>,
        [sample_row 0])"
proof -
  let ?env = "sample_env True (7 * hour_ms)"
  have e: "wcl_configured ?env" "db_available ?env"
    by (simp_all add: sample_env_def)
  have r: "req_forceRefresh (sample_request True)" "req_seasonKey (sample_request True) = None"
    by (simp_all add: sample_request_def)
  have f: "fetchWarcraftLogsCharacter True (TokenHttpError ''401 Unauthorized'') QueryNoCharacter
     = Inl \<lparr> err_code = Some ''WCL_OAUTH_FAILED'', err_message = ''WCL OAuth failed: 401 Unauthorized'' \<rparr>"
    by (simp add: fetchWarcraftLogsCharacter_def getWarcraftLogsToken_def)
  have "POST ?env [sample_row 0] (Some (sample_request True))
     = (fetchErrorResponse notFoundSlugText
          \<lparr> err_code = Some ''WCL_OAUTH_FAILED'', err_message = ''WCL OAuth failed: 401 Unauthorized'' \<rparr>,
        [sample_row 0])"
    unfolding POST_slug [OF e sample_env_parse]
    using r e(1) sample_fetch_fails [of "7 * hour_ms"]
    by (simp add: enrichSlug_def isCacheStale_def)
  then have "POST ?env [sample_row 0] (Some (sample_request True))
     = (\<lparr> status = 502, success = False,
          message = Some ''Could not authenticate with Warcraft Logs'', data = None \<rparr>,
        [sample_row 0])"
    by (simp add: fetchErrorResponse_def errorCodeOf_def errorResponse_def handleError_def
          HttpStatus_BAD_GATEWAY_def)
  with sample_lookup_found [of 0] f show ?thesis by blast
qed

subsection \<open>Rejected references\<close>

lemma white_space_not_upper: "c \<in> set white_space \<Longrightarrow> c \<notin> set upper_letters"
  unfolding white_space_def
  by (simp, elim disjE) (simp_all add: upper_letters_def)

lemma dropWhile_all_iff: "(\<forall>c \<in> set (dropWhile P s). P c) \<longleftrightarrow> (\<forall>c \<in> set s. P c)"
proof
  assume a: "\<forall>c \<in> set (dropWhile P s). P c"
  have "dropWhile P s = []"
  proof (rule ccontr)
    assume n: "dropWhile P s \<noteq> []"
    then have "\<not> P (hd (dropWhile P s))" by (rule hd_dropWhile)
    moreover have "hd (dropWhile P s) \<in> set (dropWhile P s)" using n by simp
    ultimately show False using a by blast
  qed
  then show "\<forall>c \<in> set s. P c" by (simp add: dropWhile_eq_Nil_conv)
next
  assume "\<forall>c \<in> set s. P c"
  then show "\<forall>c \<in> set (dropWhile P s). P c" using set_dropWhileD by fastforce
qed

lemma trim_empty_iff: "trim s = [] \<longleftrightarrow> (\<forall>c \<in> set s. c \<in> set white_space)"
proof -
  have "trim s = [] \<longleftrightarrow> (\<forall>c \<in> set (dropWhile (\<lambda>c. c \<in> set white_space) s). c \<in> set white_space)"
    by (simp add: trim_def dropWhile_eq_Nil_conv)
  then show ?thesis by (simp only: dropWhile_all_iff)
qed

lemma trim_empty_lower: "trim s = [] \<Longrightarrow> trim (toLowerCase s) = []"
proof -
  assume "trim s = []"
  then have a: "\<forall>c \<in> set s. c \<in> set white_space" by (simp add: trim_empty_iff)
  then have "toLowerCase s = s"
    unfolding toLowerCase_def using white_space_not_upper by (simp add: map_idI lowerChar_fix)
  with \<open>trim s = []\<close> show ?thesis by simp
qed

lemma normalizeRegion_fails: "isl (normalizeRegion r) \<longleftrightarrow> regionRejected r"
  by (simp add: normalizeRegion_def regionRejected_def Let_def)

lemma normalizeRealmSlug_fails: "isl (normalizeRealmSlug r) \<longleftrightarrow> realmRejected r"
proof (cases "r = [] \<or> trim r = []")
  case True
  then have "trim r = []" by (auto simp: trim_def)
  then have "trim (toLowerCase r) = []" by (rule trim_empty_lower)
  with True show ?thesis by (simp add: normalizeRealmSlug_def realmRejected_def re_slug_def)
next
  case False
  then show ?thesis by (simp add: normalizeRealmSlug_def realmRejected_def Let_def)
qed

lemma normalizeCharacterName_fails: "isl (normalizeCharacterName n) \<longleftrightarrow> nameRejected n"
proof (cases "n = [] \<or> trim n = []")
  case True
  then have "trim n = []" by (auto simp: trim_def)
  with True show ?thesis by (simp add: normalizeCharacterName_def nameRejected_def)
next
  case False
  then show ?thesis by (auto simp: normalizeCharacterName_def nameRejected_def Let_def)
qed

lemma validateSlug_fails:
  "isl (validateSlug a b c t) \<longleftrightarrow> regionRejected a \<or> realmRejected b \<or> nameRejected c"
  using normalizeRegion_fails [of a] normalizeRealmSlug_fails [of b] normalizeCharacterName_fails [of c]
  by (auto simp: validateSlug_def split: sum.splits)

lemma parsePath_fails: "isl (parsePath parts t) \<longleftrightarrow> pathRejected parts"
proof (cases parts)
  case Nil
  then show ?thesis by (simp add: parsePath_def pathRejected_def)
next
  case (Cons p1 r1)
  show ?thesis
  proof (cases r1)
    case Nil
    with Cons show ?thesis by (simp add: parsePath_def pathRejected_def)
  next
    case c2: (Cons p2 r2)
    show ?thesis
    proof (cases r2)
      case Nil
      with Cons c2 show ?thesis by (simp add: parsePath_def pathRejected_def)
    next
      case c3: (Cons p3 r3)
      show ?thesis
      proof (cases r3)
        case Nil
        with Cons c2 c3 show ?thesis by (simp add: parsePath_def pathRejected_def)
      next
        case c4: (Cons p4 r4)
        with Cons c2 c3 show ?thesis
          by (simp add: parsePath_def pathRejected_def validateSlug_fails)
      qed
    qed
  qed
qed

lemma parse_fails_iff:
  "isl (parseWarcraftLogsCharacterUrl urlOf input) \<longleftrightarrow> referenceRejected containsUpstream urlOf input"
  by (auto simp: parseWarcraftLogsCharacterUrl_def referenceRejected_def containsUpstream_def Let_def
        parsePath_fails split: js_value.splits option.splits simp del: str_includes.simps)

lemma str_includes_self: "str_includes (sub @ rest) sub"
proof (cases "sub @ rest")
  case Nil
  then show ?thesis by simp
next
  case (Cons a list)
  have "take (length sub) (sub @ rest) = sub" by simp
  then have "startsWith (a # list) sub" by (simp add: startsWith_def Cons [symmetric])
  then show ?thesis by (simp add: Cons)
qed

lemma str_includes_append: "str_includes b sub \<Longrightarrow> str_includes (a @ b) sub"
  by (induction a) simp_all

lemma upstreamHost_contains: "upstreamHost h \<Longrightarrow> containsUpstream h"
proof -
  assume "upstreamHost h"
  then consider "h = ''warcraftlogs.com''" | "endsWith h ''.warcraftlogs.com''"
    by (auto simp: upstreamHost_def)
  then show ?thesis
  proof cases
    case 1
    then show ?thesis using str_includes_self [of "''warcraftlogs.com''" "[]"]
      by (simp add: containsUpstream_def del: str_includes.simps)
  next
    case 2
    define k where "k = length h - length ''.warcraftlogs.com''"
    from 2 have "h = take k h @ ''.warcraftlogs.com''"
      unfolding endsWith_def k_def by (metis append_take_drop_id)
    then have "h = (take k h @ ''.'') @ ''warcraftlogs.com''" by simp
    then show ?thesis
      unfolding containsUpstream_def
      using str_includes_append [OF str_includes_self [of "''warcraftlogs.com''" "[]"], of "take k h @ ''.''"]
      by (metis append_Nil2)
  qed
qed

lemma referenceRejected_mono:
  assumes "\<And>h. strict h \<Longrightarrow> loose h"
  shows "referenceRejected loose urlOf input \<Longrightarrow> referenceRejected strict urlOf input"
  using assms by (auto simp: referenceRejected_def split: js_value.splits option.splits)

text \<open>
  What the parser rejects. It rejects a reference whenever one of these holds: the
  input is not a string, is empty or is blank; the platform cannot parse it as a URL;
  the host does not contain the text \<^verbatim>\<open>warcraftlogs.com\<close>; the path has fewer than two
  parts or does not begin with \<^verbatim>\<open>character\<close>; in the id form the identifier is missing or
  not numeric; in the slug form there are fewer than four parts, the region is not one
  of the five codes, the realm (lower-cased and trimmed) is empty or has a character
  outside \<^verbatim>\<open>[a-z0-9-]\<close>, or the name (trimmed) is shorter than 2, longer than 12 or has a
  character that is not a letter. It accepts every reference for which none of these
  holds and whose host is the upstream domain or one of its subdomains.
\<close>

lemma parse_rejects_listed:
  "(referenceRejected containsUpstream urlOf input
      \<longrightarrow> (\<exists>e. parseWarcraftLogsCharacterUrl urlOf input = Inl e))
   \<and> (\<not> referenceRejected upstreamHost urlOf input
      \<longrightarrow> (\<exists>p. parseWarcraftLogsCharacterUrl urlOf input = Inr p))"
proof -
  have a: "\<exists>e. parseWarcraftLogsCharacterUrl urlOf input = Inl e"
    if "referenceRejected containsUpstream urlOf input"
  proof -
    from that have "isl (parseWarcraftLogsCharacterUrl urlOf input)" by (simp add: parse_fails_iff)
    then show ?thesis by (cases "parseWarcraftLogsCharacterUrl urlOf input") auto
  qed
  have b: "\<exists>p. parseWarcraftLogsCharacterUrl urlOf input = Inr p"
    if "\<not> referenceRejected upstreamHost urlOf input"
  proof -
    from that have "\<not> referenceRejected containsUpstream urlOf input"
      using referenceRejected_mono [of upstreamHost containsUpstream urlOf input] upstreamHost_contains
      by blast
    then have "\<not> isl (parseWarcraftLogsCharacterUrl urlOf input)" by (simp add: parse_fails_iff)
    then show ?thesis by (cases "parseWarcraftLogsCharacterUrl urlOf input") auto
  qed
  from a b show ?thesis by blast
qed

lemma google_rejected:
  "referenceRejected containsUpstream plainURL (Str ''https://www.google.com/character/us/area-52/test'')"
  by code_simp

lemma sample_not_rejected:
  "\<not> referenceRejected upstreamHost plainURL
       (Str ''https://www.warcraftlogs.com/character/us/area-52/testchar'')"
  by code_simp

lemma parse_rejects_listed_example:
  "referenceRejected containsUpstream plainURL (Str ''https://www.google.com/character/us/area-52/test'')
   \<and> (\<exists>e. parseWarcraftLogsCharacterUrl plainURL
              (Str ''https://www.google.com/character/us/area-52/test'') = Inl e)
   \<and> \<not> referenceRejected upstreamHost plainURL
         (Str ''https://www.warcraftlogs.com/character/us/area-52/testchar'')
   \<and> (\<exists>p. parseWarcraftLogsCharacterUrl plainURL
              (Str ''https://www.warcraftlogs.com/character/us/area-52/testchar'') = Inr p)"
  using parse_rejects_listed [of plainURL "Str ''https://www.google.com/character/us/area-52/test''"]
    parse_rejects_listed [of plainURL "Str ''https://www.warcraftlogs.com/character/us/area-52/testchar''"]
    google_rejected sample_not_rejected
  by blast

text \<open>
  C7 at a concrete reference. The host \<^verbatim>\<open>warcraftlogs.com.example.org\<close> is not the upstream
  domain nor one of its subdomains, so the reference should be rejected for its host;
  but the parser tests only that the host contains the text \<^verbatim>\<open>warcraftlogs.com\<close>, which
  this one does, and the reference is parsed to the slug form.
\<close>

theorem parse_accepts_foreign_host:
  "plainURL ''https://warcraftlogs.com.example.org/character/us/area-52/testchar''
     = Some \<lparr> hostname = ''warcraftlogs.com.example.org'',
              pathname = ''/character/us/area-52/testchar'' \<rparr>
   \<and> \<not> upstreamHost ''warcraftlogs.com.example.org''
   \<and> parseWarcraftLogsCharacterUrl plainURL
       (Str ''https://warcraftlogs.com.example.org/character/us/area-52/testchar'')
     = Inr (SlugUrl ''US'' ''area-52'' ''Testchar''
              ''https://warcraftlogs.com.example.org/character/us/area-52/testchar'')"
  by code_simp

end
